theory Spec2Isabelle
  imports Complex_Main "HOL-Library.Word"
begin

section \<open>Page behaviour controller (themes/laura-theme/static/js/main.js)\<close>

text \<open>
  The script is one closure holding the module state (\<open>lastScrollY\<close>, \<open>isMenuOpen\<close>,
  \<open>activeModalTrigger\<close>) and a set of event listeners over the page DOM. Each listener is
  embedded as a function from the state before the event to the state after it. A
  dereference of \<open>null\<close> is the value \<open>Inl TypeError\<close>.
\<close>

datatype fault = TypeError

subsection \<open>Class lists\<close>

text \<open>\<open>classList\<close> is an ordered set of tokens: \<open>add\<close> appends a token that is not there
  yet, \<open>remove\<close> deletes it.\<close>

type_synonym classList = "string list"

definition classList_add :: "string \<Rightarrow> classList \<Rightarrow> classList" where
  "classList_add c cl = (if c \<in> set cl then cl else cl @ [c])"

definition classList_remove :: "string \<Rightarrow> classList \<Rightarrow> classList" where
  "classList_remove c cl = filter (\<lambda>x. x \<noteq> c) cl"

definition classList_contains :: "string \<Rightarrow> classList \<Rightarrow> bool" where
  "classList_contains c cl = (c \<in> set cl)"

subsection \<open>Scroll-reactive header (setupScrollBehavior)\<close>

text \<open>
  \<open>lastScrollY\<close> and \<open>ticking\<close> are the closure variables; \<open>navigation_classList\<close> is the
  class list of the \<open>.hamburger-nav\<close> element. Scroll offsets are JavaScript numbers; only
  their order is used, so they are reals here.
\<close>

record scroll_state =
  lastScrollY :: real
  ticking :: bool
  navigation_classList :: classList

text \<open>\<open>updateNavigation\<close>, lines 103-116. \<open>currentScrollY\<close> is \<open>window.scrollY\<close> and
  \<open>heroHeight\<close> is \<open>hero.offsetHeight\<close>, both read when the frame runs.\<close>

definition updateNavigation :: "real \<Rightarrow> real \<Rightarrow> scroll_state \<Rightarrow> scroll_state" where
  "updateNavigation currentScrollY heroHeight s =
     (let cl = (if currentScrollY > heroHeight \<and> currentScrollY > lastScrollY s
                then classList_add ''hidden'' (navigation_classList s)
                else classList_remove ''hidden'' (navigation_classList s))
      in s\<lparr>navigation_classList := cl, lastScrollY := currentScrollY, ticking := False\<rparr>)"

text \<open>\<open>onScroll\<close>, lines 118-123: a frame is requested only when none is pending.\<close>

definition onScroll :: "scroll_state \<Rightarrow> scroll_state" where
  "onScroll s = (if \<not> ticking s then s\<lparr>ticking := True\<rparr> else s)"

text \<open>The sampled frames, each with the offset and the hero height read in it.\<close>

fun run_frames :: "(real \<times> real) list \<Rightarrow> scroll_state \<Rightarrow> scroll_state" where
  "run_frames [] s = s"
| "run_frames ((y, h) # fs) s = run_frames fs (updateNavigation y h s)"

definition header_hidden :: "scroll_state \<Rightarrow> bool" where
  "header_hidden s = classList_contains ''hidden'' (navigation_classList s)"

subsection \<open>Logo carousel (setupLogoCarousel)\<close>

text \<open>
  A child of the track is a node: \<open>ident\<close> is the identity of the object, \<open>markup\<close> what
  \<open>cloneNode(true)\<close> copies (the element with its attributes and subtree).
\<close>

datatype logo = Logo (ident: nat) (markup: string)

definition cloneNode :: "nat \<Rightarrow> logo \<Rightarrow> logo" where
  "cloneNode fresh x = Logo fresh (markup x)"

text \<open>
  The loop of lines 337-340. \<open>logos\<close> is the live collection \<open>track.children\<close>: every
  \<open>appendChild\<close> is seen by the next \<open>logos[i]\<close>. \<open>logoCount\<close> was read before the loop.
  \<open>logos[i]\<close> out of range is \<open>undefined\<close>, whose \<open>cloneNode\<close> is a TypeError. The first
  component of the state is the next unused object identity.
\<close>

function clone_loop :: "nat \<Rightarrow> nat \<Rightarrow> nat \<times> logo list \<Rightarrow> fault + (nat \<times> logo list)" where
  "clone_loop i logoCount (fresh, logos) =
     (if i < logoCount then
        (if i < length logos
         then clone_loop (i + 1) logoCount (fresh + 1, logos @ [cloneNode fresh (logos ! i)])
         else Inl TypeError)
      else Inr (fresh, logos))"
  by pat_completeness auto
termination
  by (relation "measure (\<lambda>(i, logoCount, st). logoCount - i)") auto

record track =
  children :: "logo list"
  style_animation :: string
  style_animationPlayState :: string

text \<open>
  \<open>setupLogoCarousel\<close>, lines 294-341, without the listeners it registers: the guard, the
  reduced-motion check and the duplication. \<open>None\<close> for the track is a page with no
  \<open>.logos-track\<close>.
\<close>

definition setupLogoCarousel ::
  "bool \<Rightarrow> bool \<Rightarrow> nat \<Rightarrow> track option \<Rightarrow> fault + (nat \<times> track option)" where
  "setupLogoCarousel carousel_present prefersReducedMotion fresh tr =
     (case tr of
        None \<Rightarrow> Inr (fresh, None)
      | Some t \<Rightarrow>
          if \<not> carousel_present then Inr (fresh, Some t)
          else
            (let t1 = (if prefersReducedMotion then t\<lparr>style_animation := ''none''\<rparr> else t);
                 logoCount = length (children t1)
             in case clone_loop 0 logoCount (fresh, children t1) of
                  Inl e \<Rightarrow> Inl e
                | Inr (fresh', logos) \<Rightarrow> Inr (fresh', Some (t1\<lparr>children := logos\<rparr>))))"

text \<open>The clones of a list of children, made with the identities \<open>k, k + 1, ...\<close>.\<close>

definition clones_of :: "nat \<Rightarrow> logo list \<Rightarrow> logo list" where
  "clones_of k xs = map (\<lambda>j. cloneNode (k + j) (xs ! j)) [0..<length xs]"

subsection \<open>Mobile navigation (setupMobileNavigation)\<close>

text \<open>
  The elements the script looks up when it loads (lines 10-13) and the queries the
  navigation listeners make; a flag is \<open>False\<close> where the lookup gives \<open>null\<close>.
  \<open>nav_link_present\<close> is \<open>navMenu.querySelector('.nav-link')\<close>.
\<close>

record page =
  navToggle_present :: bool
  navMenu_present :: bool
  navigation_present :: bool
  hero_present :: bool
  nav_link_present :: bool

text \<open>The elements that receive \<open>focus()\<close> somewhere in the script.\<close>

datatype opener = ContactModalTrigger | LeadMagnetTrigger | ContactTrigger

datatype focusable = NavToggle | FirstNavLink | ModalFirstInput | Opener opener

text \<open>
  \<open>isMenuOpen\<close> is the closure variable; \<open>aria_expanded\<close> is the \<open>aria-expanded\<close>
  attribute of \<open>#nav-toggle\<close> (\<open>None\<close> when the attribute is absent),
  \<open>navMenu_classList\<close> the class list of \<open>#nav-menu\<close>, and \<open>nav_focus\<close> the focused
  element as far as this feature moves it.
\<close>

record nav_state =
  isMenuOpen :: bool
  aria_expanded :: "string option"
  navMenu_classList :: classList
  nav_focus :: "focusable option"

text \<open>\<open>Boolean.prototype.toString\<close>.\<close>

definition toString :: "bool \<Rightarrow> string" where
  "toString b = (if b then ''true'' else ''false'')"

text \<open>\<open>toggleMobileMenu\<close>, lines 69-84.\<close>

definition toggleMobileMenu :: "page \<Rightarrow> nav_state \<Rightarrow> nav_state" where
  "toggleMobileMenu pg s =
     (let s1 = s\<lparr>isMenuOpen := \<not> isMenuOpen s\<rparr>;
          s2 = s1\<lparr>aria_expanded := Some (toString (isMenuOpen s1))\<rparr>
      in if isMenuOpen s2 then
           (let s3 = s2\<lparr>navMenu_classList := classList_add ''nav-menu--open'' (navMenu_classList s2)\<rparr>
            in if nav_link_present pg then s3\<lparr>nav_focus := Some FirstNavLink\<rparr> else s3)
         else s2\<lparr>navMenu_classList := classList_remove ''nav-menu--open'' (navMenu_classList s2)\<rparr>)"

text \<open>\<open>closeMobileMenu\<close>, lines 89-93.\<close>

definition closeMobileMenu :: "nav_state \<Rightarrow> nav_state" where
  "closeMobileMenu s =
     s\<lparr>isMenuOpen := False,
       aria_expanded := Some ''false'',
       navMenu_classList := classList_remove ''nav-menu--open'' (navMenu_classList s)\<rparr>"

text \<open>
  The listeners registered by \<open>setupMobileNavigation\<close>. \<open>DocumentClick inside\<close> is a
  click that reaches the document; \<open>inside\<close> is what \<open>navigation.contains(event.target)\<close>
  gives when the navigation element exists. \<open>WindowResize w\<close> is a resize with
  \<open>window.innerWidth = w\<close>.
\<close>

datatype nav_event =
    ToggleClick
  | ToggleTouchEnd
  | DocumentClick bool
  | DocumentKeyDown string
  | WindowResize int

text \<open>
  Lines 37-63, one equation per listener. \<open>navToggle\<close> and \<open>navMenu\<close> are not \<open>null\<close> in any
  listener (line 35 returned otherwise); \<open>navigation\<close> may be, and line 45 dereferences it
  once \<open>isMenuOpen\<close> is true.
\<close>

fun nav_listener :: "page \<Rightarrow> nav_event \<Rightarrow> nav_state \<Rightarrow> fault + nav_state" where
  "nav_listener pg ToggleClick s = Inr (toggleMobileMenu pg s)"
| "nav_listener pg ToggleTouchEnd s = Inr (toggleMobileMenu pg s)"
| "nav_listener pg (DocumentClick inside) s =
     (if isMenuOpen s then
        (if navigation_present pg
         then (if \<not> inside then Inr (closeMobileMenu s) else Inr s)
         else Inl TypeError)
      else Inr s)"
| "nav_listener pg (DocumentKeyDown key) s =
     (if key = ''Escape'' \<and> isMenuOpen s
      then Inr ((closeMobileMenu s)\<lparr>nav_focus := Some NavToggle\<rparr>)
      else Inr s)"
| "nav_listener pg (WindowResize innerWidth) s =
     (if innerWidth \<ge> 768 \<and> isMenuOpen s then Inr (closeMobileMenu s) else Inr s)"

text \<open>\<open>setupMobileNavigation\<close>, line 35: the listeners are registered only when this holds.\<close>

definition setupMobileNavigation :: "page \<Rightarrow> bool" where
  "setupMobileNavigation pg = (navToggle_present pg \<and> navMenu_present pg)"

definition nav_dispatch :: "page \<Rightarrow> nav_event \<Rightarrow> nav_state \<Rightarrow> fault + nav_state" where
  "nav_dispatch pg e s = (if setupMobileNavigation pg then nav_listener pg e s else Inr s)"

text \<open>\<open>setupScrollBehavior\<close>, line 99: the scroll listener is registered only when this
  holds, so \<open>updateNavigation\<close> runs only on a page with both elements.\<close>

definition setupScrollBehavior :: "page \<Rightarrow> bool" where
  "setupScrollBehavior pg = (navigation_present pg \<and> hero_present pg)"

text \<open>
  A sequence of events. An exception ends the listener that raised it and is reported;
  the events after it are still delivered. The only listener that can raise does so
  before it assigns anything, so the state it leaves is the one it found. The result is
  the list of reported faults and the final state.
\<close>

fun nav_run :: "page \<Rightarrow> nav_event list \<Rightarrow> nav_state \<Rightarrow> fault list \<times> nav_state" where
  "nav_run pg [] s = ([], s)"
| "nav_run pg (e # es) s =
     (case nav_dispatch pg e s of
        Inl f \<Rightarrow> (let (fs, s') = nav_run pg es s in (f # fs, s'))
      | Inr s1 \<Rightarrow> nav_run pg es s1)"

text \<open>The exposed accessibility state agrees with the flag.\<close>

definition expanded_in_sync :: "nav_state \<Rightarrow> bool" where
  "expanded_in_sync s = (aria_expanded s = Some (toString (isMenuOpen s)))"

subsection \<open>Modal dialog (setupModal)\<close>

text \<open>
  The lookups of lines 347-353 and the query of line 369 (\<open>modal.querySelector('input')\<close>);
  a flag is \<open>False\<close> where the result is \<open>null\<close>.
\<close>

record modal_page =
  contactModalTrigger_present :: bool
  leadMagnetTrigger_present :: bool
  contactTrigger_present :: bool
  modal_present :: bool
  modalClose_present :: bool
  modalOverlay_present :: bool
  form_present :: bool
  modal_input_present :: bool

fun opener_present :: "modal_page \<Rightarrow> opener \<Rightarrow> bool" where
  "opener_present pg ContactModalTrigger = contactModalTrigger_present pg"
| "opener_present pg LeadMagnetTrigger = leadMagnetTrigger_present pg"
| "opener_present pg ContactTrigger = contactTrigger_present pg"

text \<open>The two functions handed to \<open>setTimeout\<close>, lines 368 and 409.\<close>

datatype timer_callback = FocusFirstInput | OpenPdfThenClose

text \<open>
  What the modal code does to the page, in program order: its writes to the modal and
  the body, its \<open>focus()\<close> calls, \<open>window.open\<close> and \<open>setTimeout\<close>.
\<close>

datatype effect =
    ModalDisplay string
  | ModalAriaHidden string
  | BodyOverflow string
  | Focus focusable
  | WindowOpen string string
  | SetTimeout timer_callback nat

text \<open>
  \<open>activeModalTrigger\<close> is the closure variable of line 358. \<open>modal_display\<close> is
  \<open>modal.style.display\<close>, \<open>modal_aria_hidden\<close> the modal's \<open>aria-hidden\<close> attribute,
  \<open>body_overflow\<close> is \<open>document.body.style.overflow\<close>, \<open>modal_focus\<close> the focused element as
  far as this feature moves it, \<open>pending\<close> the timers set and not yet run (callback and
  delay in milliseconds), and \<open>log\<close> the effects so far.
\<close>

record modal_state =
  activeModalTrigger :: "opener option"
  modal_display :: string
  modal_aria_hidden :: "string option"
  body_overflow :: string
  modal_focus :: "focusable option"
  pending :: "(timer_callback \<times> nat) list"
  log :: "effect list"

text \<open>\<open>openModal\<close>, lines 361-372.\<close>

definition openModal :: "opener \<Rightarrow> modal_state \<Rightarrow> modal_state" where
  "openModal triggerElement s =
     s\<lparr>activeModalTrigger := Some triggerElement,
       modal_display := ''flex'',
       modal_aria_hidden := Some ''false'',
       body_overflow := ''hidden'',
       pending := pending s @ [(FocusFirstInput, 100)],
       log := log s @ [ModalDisplay ''flex'', ModalAriaHidden ''false'', BodyOverflow ''hidden'',
                       SetTimeout FocusFirstInput 100]\<rparr>"

text \<open>\<open>closeModal\<close>, lines 375-384.\<close>

definition closeModal :: "modal_state \<Rightarrow> modal_state" where
  "closeModal s =
     (let s1 = s\<lparr>modal_display := ''none'',
                 modal_aria_hidden := Some ''true'',
                 body_overflow := '''',
                 log := log s @ [ModalDisplay ''none'', ModalAriaHidden ''true'', BodyOverflow '''']\<rparr>
      in case activeModalTrigger s1 of
           None \<Rightarrow> s1
         | Some t \<Rightarrow> s1\<lparr>modal_focus := Some (Opener t),
                        activeModalTrigger := None,
                        log := log s1 @ [Focus (Opener t)]\<rparr>)"

text \<open>The part of a submit event the listeners can change.\<close>

record submit_event =
  defaultPrevented :: bool

text \<open>
  The submit listener of the embedded form, lines 407-414: it sets the timer and does
  nothing to the event.
\<close>

definition modal_form_submit :: "submit_event \<Rightarrow> modal_state \<Rightarrow> submit_event \<times> modal_state" where
  "modal_form_submit event s =
     (event, s\<lparr>pending := pending s @ [(OpenPdfThenClose, 1000)],
               log := log s @ [SetTimeout OpenPdfThenClose 1000]\<rparr>)"

text \<open>
  The timer callbacks, lines 368-371 and 409-413. \<open>focus()\<close> on an input of a modal that
  is not displayed is called but moves no focus.
\<close>

fun run_callback :: "modal_page \<Rightarrow> timer_callback \<Rightarrow> modal_state \<Rightarrow> modal_state" where
  "run_callback pg FocusFirstInput s =
     (if modal_input_present pg
      then s\<lparr>modal_focus := (if modal_display s = ''flex'' then Some ModalFirstInput
                              else modal_focus s),
             log := log s @ [Focus ModalFirstInput]\<rparr>
      else s)"
| "run_callback pg OpenPdfThenClose s =
     closeModal (s\<lparr>log := log s @ [WindowOpen ''/neuroinclusive-interview-tips.pdf'' ''_blank'']\<rparr>)"

text \<open>
  The events of the modal. \<open>TimerFires i\<close> runs the \<open>i\<close>-th pending timer; the model lets
  pending timers run in any order.
\<close>

datatype modal_event =
    OpenerClick opener
  | ModalCloseClick
  | OverlayClick
  | ModalKeyDown string
  | FormSubmit
  | TimerFires nat

text \<open>Lines 387-430: a listener exists only on an element that was found.\<close>

fun modal_listener :: "modal_page \<Rightarrow> modal_event \<Rightarrow> modal_state \<Rightarrow> modal_state" where
  "modal_listener pg (OpenerClick t) s = (if opener_present pg t then openModal t s else s)"
| "modal_listener pg ModalCloseClick s = (if modalClose_present pg then closeModal s else s)"
| "modal_listener pg OverlayClick s = (if modalOverlay_present pg then closeModal s else s)"
| "modal_listener pg (ModalKeyDown key) s =
     (if key = ''Escape'' \<and> modal_display s = ''flex'' then closeModal s else s)"
| "modal_listener pg FormSubmit s =
     (if form_present pg then snd (modal_form_submit \<lparr>defaultPrevented = False\<rparr> s) else s)"
| "modal_listener pg (TimerFires i) s =
     (if i < length (pending s)
      then run_callback pg (fst (pending s ! i))
             (s\<lparr>pending := take i (pending s) @ drop (Suc i) (pending s)\<rparr>)
      else s)"

text \<open>\<open>setupModal\<close>, line 355: nothing is registered on a page without the modal.\<close>

definition modal_dispatch :: "modal_page \<Rightarrow> modal_event \<Rightarrow> modal_state \<Rightarrow> modal_state" where
  "modal_dispatch pg e s = (if modal_present pg then modal_listener pg e s else s)"

fun modal_run :: "modal_page \<Rightarrow> modal_event list \<Rightarrow> modal_state \<Rightarrow> modal_state" where
  "modal_run pg [] s = s"
| "modal_run pg (e # es) s = modal_run pg es (modal_dispatch pg e s)"


subsection \<open>Form validation (setupFormEnhancements)\<close>

text \<open>
  A field value is a JavaScript string: a sequence of UTF-16 code units. \<open>trim\<close> and the
  class \<open>\s\<close> of a regular expression look at code units, so values are kept as such.
  Ids, class names and messages are only compared and concatenated; they are HOL
  strings. \<open>js\<close> gives the code units of an ASCII literal.
\<close>

type_synonym code_unit = "16 word"

type_synonym jsstring = "code_unit list"

definition js :: "string \<Rightarrow> jsstring" where
  "js s = map of_char s"

text \<open>
  The code units that \<open>String.prototype.trim\<close> strips and \<open>\s\<close> matches: the white space
  and line terminator code points of ECMAScript (TAB, LF, VT, FF, CR, SP, NBSP, U+1680,
  U+2000 to U+200A, U+2028, U+2029, U+202F, U+205F, U+3000, U+FEFF).
\<close>

definition isWhiteSpace :: "code_unit \<Rightarrow> bool" where
  "isWhiteSpace c =
     (c = 0x09 \<or> c = 0x0A \<or> c = 0x0B \<or> c = 0x0C \<or> c = 0x0D \<or> c = 0x20 \<or> c = 0xA0
      \<or> c = 0x1680 \<or> (0x2000 \<le> c \<and> c \<le> 0x200A) \<or> c = 0x2028 \<or> c = 0x2029
      \<or> c = 0x202F \<or> c = 0x205F \<or> c = 0x3000 \<or> c = 0xFEFF)"

definition trim :: "jsstring \<Rightarrow> jsstring" where
  "trim s = rev (dropWhile isWhiteSpace (rev (dropWhile isWhiteSpace s)))"

text \<open>
  The regular expression of line 193, \<open>/^[^\s@]+@[^\s@]+\.[^\s@]+$/\<close>, is a sequence of
  literal characters and of classes under \<open>+\<close>, anchored at both ends. \<open>re_match\<close> is the
  backtracking matcher for such a sequence against the whole input.
\<close>

datatype regex_item = Literal code_unit | PlusClass "code_unit \<Rightarrow> bool"

fun re_match :: "regex_item list \<Rightarrow> jsstring \<Rightarrow> bool" where
  "re_match [] s = (s = [])"
| "re_match (Literal c # r) [] = False"
| "re_match (Literal c # r) (x # xs) = (x = c \<and> re_match r xs)"
| "re_match (PlusClass p # r) [] = False"
| "re_match (PlusClass p # r) (x # xs) =
     (p x \<and> (re_match (PlusClass p # r) xs \<or> re_match r xs))"

text \<open>The class \<open>[^\s@]\<close>.\<close>

definition notSpaceAt :: "code_unit \<Rightarrow> bool" where
  "notSpaceAt c = (\<not> isWhiteSpace c \<and> c \<noteq> 0x40)"

definition emailRegex :: "regex_item list" where
  "emailRegex = [PlusClass notSpaceAt, Literal 0x40, PlusClass notSpaceAt, Literal 0x2E,
                 PlusClass notSpaceAt]"

definition emailRegex_test :: "jsstring \<Rightarrow> bool" where
  "emailRegex_test s = re_match emailRegex s"

text \<open>
  An element object, with the properties and attributes the validation code reads or
  writes. \<open>localName\<close> is the tag in lower case, as selectors match it. \<open>el_id\<close> is the
  \<open>id\<close> property (empty when the element has no id attribute).
  \<open>attached\<close> says that the element is in the document, where it has a parent node;
  \<open>remove()\<close> takes it out. \<open>etype\<close>, \<open>evalue\<close> and \<open>required\<close> are \<open>type\<close>, \<open>value\<close> and
  \<open>hasAttribute('required')\<close> of a form control.
\<close>

record element =
  localName :: string
  el_id :: string
  className :: string
  textContent :: string
  attached :: bool
  etype :: string
  evalue :: jsstring
  required :: bool
  aria_invalid :: "string option"
  aria_describedby :: "string option"
  style_borderColor :: string
  style_color :: string
  style_fontSize :: string
  style_marginTop :: string

text \<open>
  The element objects of the page, those of the document in tree order. An object is
  referred to by its position, which never changes: \<open>remove()\<close> clears \<open>attached\<close> and
  leaves the object in place, and a created element is put last. (It is created only
  when no attached element has its id, which stays so while it is attached, so its
  place among the others changes no lookup.) The sequence is flat: \<open>remove()\<close> and the
  assignment to \<open>textContent\<close> act on one element. That is what they do to the error
  elements the script creates, which hold text only; markup in which an element that
  carries an error id contains other elements is outside the model.
\<close>

type_synonym document = "element list"

text \<open>\<open>document.getElementById\<close>: the first element of the document, in tree order, with
  that id; no element has the empty id.\<close>

definition getElementById :: "document \<Rightarrow> string \<Rightarrow> nat option" where
  "getElementById d i =
     (if i = '''' then None
      else find (\<lambda>n. attached (d ! n) \<and> el_id (d ! n) = i) [0..<length d])"

text \<open>\<open>clearFieldError\<close>, lines 235-245. A \<open>field\<close> that is no object of the page is
  outside the model; nothing is done for it.\<close>

definition clearFieldError :: "document \<Rightarrow> nat \<Rightarrow> document" where
  "clearFieldError d field =
     (if field < length d then
        (let d1 = d[field := (d ! field)\<lparr>aria_invalid := None\<rparr>];
             d2 = d1[field := (d1 ! field)\<lparr>style_borderColor := ''''\<rparr>];
             d3 = d2[field := (d2 ! field)\<lparr>aria_describedby := None\<rparr>];
             errorId = el_id (d3 ! field) @ ''-error''
         in case getElementById d3 errorId of
              None \<Rightarrow> d3
            | Some errorElement \<Rightarrow> d3[errorElement := (d3 ! errorElement)\<lparr>attached := False\<rparr>])
      else d)"

text \<open>The element made by lines 219-224.\<close>

definition new_errorElement :: "string \<Rightarrow> element" where
  "new_errorElement errorId =
     \<lparr>localName = ''div'', el_id = errorId, className = ''field-error'', textContent = '''',
      attached = False, etype = '''', evalue = [], required = False, aria_invalid = None,
      aria_describedby = None, style_borderColor = '''',
      style_color = ''var(--color-callout)'', style_fontSize = ''var(--font-size-sm)'',
      style_marginTop = ''var(--spacing-xs)''\<rparr>"

text \<open>
  \<open>showFieldError\<close>, lines 210-230. \<open>field.parentNode\<close> is \<open>null\<close> for a field that is not
  attached, and \<open>appendChild\<close> on it is a TypeError; the page a call leaves when it raises
  is not kept.
\<close>

definition showFieldError :: "document \<Rightarrow> nat \<Rightarrow> string \<Rightarrow> fault + document" where
  "showFieldError d field message =
     (if field < length d then
        (let d1 = d[field := (d ! field)\<lparr>aria_invalid := Some ''true''\<rparr>];
             d2 = d1[field := (d1 ! field)\<lparr>style_borderColor := ''var(--color-callout)''\<rparr>];
             errorId = el_id (d2 ! field) @ ''-error'';
             found = (case getElementById d2 errorId of
                        Some errorElement \<Rightarrow> Inr (d2, errorElement)
                      | None \<Rightarrow>
                          if attached (d2 ! field)
                          then Inr (d2 @ [(new_errorElement errorId)\<lparr>attached := True\<rparr>], length d2)
                          else Inl TypeError)
         in case found of
              Inl e \<Rightarrow> Inl e
            | Inr (d3, errorElement) \<Rightarrow>
                (let d4 = d3[errorElement := (d3 ! errorElement)\<lparr>textContent := message\<rparr>]
                 in Inr (d4[field := (d4 ! field)\<lparr>aria_describedby := Some errorId\<rparr>])))
      else Inr d)"

text \<open>
  Lines 177-198 of \<open>validateField\<close>: the values of \<open>isValid\<close> and \<open>errorMessage\<close> at line
  200, from the properties of the field.
\<close>

definition field_verdict :: "element \<Rightarrow> bool \<times> string" where
  "field_verdict f =
     (let value = trim (evalue f);
          isRequired = required f;
          (isValid, errorMessage) = (True, '''');
          (isValid, errorMessage) =
             (if isRequired \<and> value = [] then (False, ''This field is required.'')
              else (isValid, errorMessage));
          (isValid, errorMessage) =
             (if etype f = ''email'' \<and> value \<noteq> [] then
                (if \<not> emailRegex_test value
                 then (False, ''Please enter a valid email address.'')
                 else (isValid, errorMessage))
              else (isValid, errorMessage))
      in (isValid, errorMessage))"

text \<open>\<open>validateField\<close>, lines 176-205: the result and the page after it.\<close>

definition validateField :: "document \<Rightarrow> nat \<Rightarrow> fault + (bool \<times> document)" where
  "validateField d field =
     (if field < length d then
        (let (isValid, errorMessage) = field_verdict (d ! field);
             d1 = clearFieldError d field
         in if \<not> isValid then
              (case showFieldError d1 field errorMessage of
                 Inl e \<Rightarrow> Inl e
               | Inr d2 \<Rightarrow> Inr (isValid, d2))
            else Inr (isValid, d1))
      else Inr (True, d))"

text \<open>
  \<open>validateForm\<close>, lines 160-171. A form is the list of its descendant elements in tree
  order; \<open>querySelectorAll('input[required], textarea[required]')\<close> selects among them.
  The \<open>forEach\<close> is \<open>validate_each\<close>; an exception leaves it.
\<close>

definition required_inputs :: "document \<Rightarrow> nat list \<Rightarrow> nat list" where
  "required_inputs d form =
     filter (\<lambda>n. n < length d
                 \<and> (localName (d ! n) = ''input'' \<or> localName (d ! n) = ''textarea'')
                 \<and> required (d ! n)) form"

fun validate_each :: "document \<Rightarrow> nat list \<Rightarrow> bool \<Rightarrow> fault + (bool \<times> document)" where
  "validate_each d [] isValid = Inr (isValid, d)"
| "validate_each d (input # inputs) isValid =
     (case validateField d input of
        Inl e \<Rightarrow> Inl e
      | Inr (ok, d1) \<Rightarrow> validate_each d1 inputs (if \<not> ok then False else isValid))"

definition validateForm :: "document \<Rightarrow> nat list \<Rightarrow> fault + (bool \<times> document)" where
  "validateForm d form = validate_each d (required_inputs d form) True"

text \<open>
  The submit listener of the contact form, lines 137-142. When \<open>validateForm\<close> raises, the
  listener ends before it can cancel the event.
\<close>

definition contact_form_submit ::
  "submit_event \<Rightarrow> document \<Rightarrow> nat list \<Rightarrow> fault + (submit_event \<times> document)" where
  "contact_form_submit event d form =
     (case validateForm d form of
        Inl e \<Rightarrow> Inl e
      | Inr (isValid, d1) \<Rightarrow>
          Inr (if \<not> isValid then event\<lparr>defaultPrevented := True\<rparr> else event, d1))"

text \<open>The number of elements of the document with a given id.\<close>

definition count_id :: "document \<Rightarrow> string \<Rightarrow> nat" where
  "count_id d i = length (filter (\<lambda>n. attached (d ! n) \<and> el_id (d ! n) = i) [0..<length d])"

text \<open>
  A field shows the error \<open>message\<close>: it is marked invalid and described by its error
  element, which is in the document and holds the message.
\<close>

definition shows_error :: "document \<Rightarrow> nat \<Rightarrow> string \<Rightarrow> bool" where
  "shows_error d field message =
     (field < length d
      \<and> aria_invalid (d ! field) = Some ''true''
      \<and> aria_describedby (d ! field) = Some (el_id (d ! field) @ ''-error'')
      \<and> (case getElementById d (el_id (d ! field) @ ''-error'') of
            None \<Rightarrow> False
          | Some e \<Rightarrow> textContent (d ! e) = message))"

text \<open>A field carries no trace of an error.\<close>

definition no_error :: "document \<Rightarrow> nat \<Rightarrow> bool" where
  "no_error d field =
     (field < length d
      \<and> aria_invalid (d ! field) = None
      \<and> aria_describedby (d ! field) = None
      \<and> style_borderColor (d ! field) = ''''
      \<and> getElementById d (el_id (d ! field) @ ''-error'') = None)"

text \<open>
  What \<open>clearFieldError\<close>, \<open>showFieldError\<close> and \<open>validateField\<close> on a field leave alone,
  from the page \<open>d\<close> before to the page \<open>d'\<close> after: no object is dropped, no id, tag,
  type, value or \<open>required\<close> changes, the error attributes of the other elements keep
  their values, an element whose id is not the error id of the field keeps its text and
  its place in the document, and every new element has the error id of the field.
\<close>

definition frame :: "document \<Rightarrow> document \<Rightarrow> nat \<Rightarrow> bool" where
  "frame d d' field =
     (field < length d \<and> length d \<le> length d'
      \<and> (\<forall>n<length d. el_id (d' ! n) = el_id (d ! n) \<and> localName (d' ! n) = localName (d ! n)
            \<and> etype (d' ! n) = etype (d ! n) \<and> evalue (d' ! n) = evalue (d ! n)
            \<and> required (d' ! n) = required (d ! n))
      \<and> (\<forall>n<length d. n \<noteq> field \<longrightarrow>
            aria_invalid (d' ! n) = aria_invalid (d ! n)
            \<and> aria_describedby (d' ! n) = aria_describedby (d ! n)
            \<and> style_borderColor (d' ! n) = style_borderColor (d ! n))
      \<and> (\<forall>n<length d. el_id (d ! n) \<noteq> el_id (d ! field) @ ''-error'' \<longrightarrow>
            attached (d' ! n) = attached (d ! n) \<and> textContent (d' ! n) = textContent (d ! n))
      \<and> (\<forall>n. length d \<le> n \<longrightarrow> n < length d' \<longrightarrow> el_id (d' ! n) = el_id (d ! field) @ ''-error''))"

text \<open>The field after lines 211, 212 and 229.\<close>

definition shown :: "element \<Rightarrow> element" where
  "shown f = f\<lparr>aria_invalid := Some ''true'', style_borderColor := ''var(--color-callout)'',
              aria_describedby := Some (el_id f @ ''-error'')\<rparr>"

text \<open>A required text input of the document with the given id and value, for the examples.\<close>

definition text_input :: "string \<Rightarrow> string \<Rightarrow> element" where
  "text_input i v =
     \<lparr>localName = ''input'', el_id = i, className = '''', textContent = '''', attached = True,
      etype = ''text'', evalue = js v, required = True, aria_invalid = None,
      aria_describedby = None, style_borderColor = '''', style_color = '''',
      style_fontSize = '''', style_marginTop = ''''\<rparr>"

text \<open>The field after lines 236-238.\<close>

definition cleared :: "element \<Rightarrow> element" where
  "cleared f = f\<lparr>aria_invalid := None, style_borderColor := '''', aria_describedby := None\<rparr>"

text \<open>
  The error annotation of a field is its own: at most one element of the document has
  the error id of the field, and there is one exactly when the field is marked invalid.
\<close>

definition own_annotation :: "document \<Rightarrow> nat \<Rightarrow> bool" where
  "own_annotation d field =
     (field < length d
      \<and> count_id d (el_id (d ! field) @ ''-error'') \<le> 1
      \<and> (aria_invalid (d ! field) = Some ''true'')
          = (getElementById d (el_id (d ! field) @ ''-error'') \<noteq> None))"

text \<open>
  An element as lines 219-228 make it: a \<open>div\<close> of class \<open>field-error\<close> with the three
  styles, holding text; only its id, its text and whether it is in the document vary.
\<close>

definition script_error_element :: "element \<Rightarrow> bool" where
  "script_error_element e =
     (e = (new_errorElement (el_id e))\<lparr>attached := attached e, textContent := textContent e\<rparr>)"

section \<open>Properties\<close>

subsection \<open>Scroll-reactive header\<close>

lemma classList_contains_add [simp]:
  "classList_contains c (classList_add c cl)"
  by (simp add: classList_contains_def classList_add_def)

lemma classList_contains_remove [simp]:
  "\<not> classList_contains c (classList_remove c cl)"
  by (simp add: classList_contains_def classList_remove_def)

lemma header_hidden_updateNavigation:
  "header_hidden (updateNavigation y h s) = (y > h \<and> y > lastScrollY s)"
  by (simp add: header_hidden_def updateNavigation_def)

lemma lastScrollY_updateNavigation [simp]:
  "lastScrollY (updateNavigation y h s) = y"
  by (simp add: updateNavigation_def Let_def)

lemma run_frames_append:
  "run_frames (fs @ gs) s = run_frames gs (run_frames fs s)"
  by (induction fs arbitrary: s) auto

lemma lastScrollY_run_frames:
  "lastScrollY (run_frames fs s) = (if fs = [] then lastScrollY s else fst (last fs))"
proof (induction fs arbitrary: s)
  case Nil
  show ?case by simp
next
  case (Cons f fs)
  obtain y h where f: "f = (y, h)" by (cases f)
  show ?case using Cons[of "updateNavigation y h s"] by (simp add: f)
qed

text \<open>
  C4. In every sampled frame the header has the class \<open>hidden\<close> afterwards exactly when
  the offset read in the frame exceeds the hero height and exceeds the offset of the
  previously sampled frame (the offset at load time for the first frame); in every other
  case the class is absent. This holds after any history of frames.
\<close>

theorem header_hidden_exactly_when_scrolling_down_past_hero:
  "header_hidden (updateNavigation y h s) = (y > h \<and> y > lastScrollY s)
   \<and> header_hidden (run_frames (fs @ [(y, h)]) s)
       = (y > h \<and> y > (if fs = [] then lastScrollY s else fst (last fs)))
   \<and> lastScrollY (run_frames (fs @ [(y, h)]) s) = y"
  by (simp add: run_frames_append header_hidden_updateNavigation lastScrollY_run_frames)

theorem header_hidden_witness:
  "header_hidden (run_frames ([(0, 300), (600, 300)])
      \<lparr>lastScrollY = 0, ticking = False, navigation_classList = []\<rparr>)
   \<and> \<not> header_hidden (run_frames ([(0, 300), (600, 300), (550, 300)])
      \<lparr>lastScrollY = 0, ticking = False, navigation_classList = []\<rparr>)
   \<and> \<not> header_hidden (run_frames ([(100, 300), (200, 300)])
      \<lparr>lastScrollY = 0, ticking = False, navigation_classList = []\<rparr>)"
  using header_hidden_exactly_when_scrolling_down_past_hero
          [of 600 300 "\<lparr>lastScrollY = 0, ticking = False, navigation_classList = []\<rparr>" "[(0, 300)]"]
        header_hidden_exactly_when_scrolling_down_past_hero
          [of 550 300 "\<lparr>lastScrollY = 0, ticking = False, navigation_classList = []\<rparr>"
              "[(0, 300), (600, 300)]"]
        header_hidden_exactly_when_scrolling_down_past_hero
          [of 200 300 "\<lparr>lastScrollY = 0, ticking = False, navigation_classList = []\<rparr>"
              "[(100, 300)]"]
  by simp

subsection \<open>Logo carousel\<close>

lemma clone_loop_from:
  "n \<le> length logos \<Longrightarrow> i \<le> n \<Longrightarrow>
   clone_loop i n (k, logos)
     = Inr (k + (n - i), logos @ map (\<lambda>j. cloneNode (k + (j - i)) (logos ! j)) [i..<n])"
proof (induction "n - i" arbitrary: i k logos)
  case 0
  then show ?case by simp
next
  case (Suc d)
  from Suc.hyps(2) have lt: "i < n" by simp
  let ?c = "cloneNode k (logos ! i)"
  have il: "i < length logos" using lt Suc.prems by simp
  have step: "clone_loop i n (k, logos) = clone_loop (i + 1) n (k + 1, logos @ [?c])"
    using lt il by simp
  have d: "d = n - (i + 1)" using Suc.hyps(2) by simp
  have ih: "clone_loop (i + 1) n (k + 1, logos @ [?c])
      = Inr (k + 1 + (n - (i + 1)),
             (logos @ [?c]) @ map (\<lambda>j. cloneNode (k + 1 + (j - (i + 1))) ((logos @ [?c]) ! j)) [i + 1..<n])"
    using Suc.hyps(1)[OF d, of "logos @ [?c]" "k + 1"] Suc.prems lt by simp
  have m: "map (\<lambda>j. cloneNode (k + 1 + (j - (i + 1))) ((logos @ [?c]) ! j)) [i + 1..<n]
         = map (\<lambda>j. cloneNode (k + (j - i)) (logos ! j)) [i + 1..<n]"
  proof (rule map_cong[OF refl])
    fix j assume "j \<in> set [i + 1..<n]"
    then have j: "i + 1 \<le> j" "j < n" by auto
    have a: "k + 1 + (j - (i + 1)) = k + (j - i)" using j by arith
    have b: "(logos @ [?c]) ! j = logos ! j" using j Suc.prems by (simp add: nth_append)
    show "cloneNode (k + 1 + (j - (i + 1))) ((logos @ [?c]) ! j) = cloneNode (k + (j - i)) (logos ! j)"
      unfolding a b ..
  qed
  have u: "[i..<n] = i # [i + 1..<n]" using lt by (simp add: upt_conv_Cons)
  show ?case unfolding step ih m using lt by (simp add: u del: clone_loop.simps)
qed

lemma clone_loop_all:
  "clone_loop 0 (length xs) (k, xs) = Inr (k + length xs, xs @ clones_of k xs)"
  using clone_loop_from[of "length xs" xs 0 k] by (simp add: clones_of_def)

lemma length_clones_of: "length (clones_of k xs) = length xs"
  by (simp add: clones_of_def)

lemma markup_clones_of: "map markup (clones_of k xs) = map markup xs"
  by (rule nth_equalityI) (simp_all add: clones_of_def cloneNode_def)

lemma ident_clones_of: "map ident (clones_of k xs) = [k..<k + length xs]"
  by (rule nth_equalityI) (simp_all add: clones_of_def cloneNode_def)

text \<open>
  C9. On a page with a carousel and a track of \<open>n\<close> children the setup returns (the loop
  ends, and no \<open>logos[i]\<close> is out of range); afterwards the track has \<open>2n\<close> children, the
  first \<open>n\<close> are the original children, and the last \<open>n\<close> are their clones in the same
  order: the same markup, under the \<open>n\<close> new identities.
\<close>

theorem setupLogoCarousel_duplicates_once:
  "setupLogoCarousel True rm k (Some t)
     = Inr (k + length (children t),
            Some ((if rm then t\<lparr>style_animation := ''none''\<rparr> else t)
                    \<lparr>children := children t @ clones_of k (children t)\<rparr>))
   \<and> length (children t @ clones_of k (children t)) = 2 * length (children t)
   \<and> take (length (children t)) (children t @ clones_of k (children t)) = children t
   \<and> drop (length (children t)) (children t @ clones_of k (children t)) = clones_of k (children t)
   \<and> map markup (clones_of k (children t)) = map markup (children t)
   \<and> map ident (clones_of k (children t)) = [k..<k + length (children t)]"
  by (simp add: setupLogoCarousel_def clone_loop_all length_clones_of markup_clones_of
        ident_clones_of del: clone_loop.simps)

theorem setupLogoCarousel_witness:
  "setupLogoCarousel True False 7
     (Some \<lparr>children = [Logo 0 ''a'', Logo 1 ''b''], style_animation = '''',
            style_animationPlayState = ''''\<rparr>)
   = Inr (9, Some \<lparr>children = [Logo 0 ''a'', Logo 1 ''b'', Logo 7 ''a'', Logo 8 ''b''],
                   style_animation = '''', style_animationPlayState = ''''\<rparr>)"
  using setupLogoCarousel_duplicates_once
          [of False 7 "\<lparr>children = [Logo 0 ''a'', Logo 1 ''b''], style_animation = '''',
                          style_animationPlayState = ''''\<rparr>"]
  by (simp add: clones_of_def cloneNode_def upt_rec)

subsection \<open>Mobile navigation\<close>

lemma toggleMobileMenu_in_sync: "expanded_in_sync (toggleMobileMenu pg s)"
  by (simp add: expanded_in_sync_def toggleMobileMenu_def Let_def)

lemma closeMobileMenu_in_sync: "expanded_in_sync (closeMobileMenu s)"
  by (simp add: expanded_in_sync_def closeMobileMenu_def toString_def)

lemma nav_listener_sync_or_same:
  "nav_listener pg e s = Inr s' \<Longrightarrow>
   expanded_in_sync s' \<or> (isMenuOpen s' = isMenuOpen s \<and> aria_expanded s' = aria_expanded s)"
proof (cases e)
  case ToggleClick
  assume "nav_listener pg e s = Inr s'"
  then show ?thesis using ToggleClick toggleMobileMenu_in_sync[of pg s] by auto
next
  case ToggleTouchEnd
  assume "nav_listener pg e s = Inr s'"
  then show ?thesis using ToggleTouchEnd toggleMobileMenu_in_sync[of pg s] by auto
next
  case (DocumentClick inside)
  assume "nav_listener pg e s = Inr s'"
  then show ?thesis using DocumentClick closeMobileMenu_in_sync[of s]
    by (auto split: if_splits)
next
  case (DocumentKeyDown key)
  assume "nav_listener pg e s = Inr s'"
  then show ?thesis using DocumentKeyDown closeMobileMenu_in_sync[of s]
    by (auto simp: expanded_in_sync_def split: if_splits)
next
  case (WindowResize w)
  assume "nav_listener pg e s = Inr s'"
  then show ?thesis using WindowResize closeMobileMenu_in_sync[of s]
    by (auto split: if_splits)
qed

lemma nav_dispatch_sync_or_same:
  "nav_dispatch pg e s = Inr s' \<Longrightarrow>
   expanded_in_sync s' \<or> (isMenuOpen s' = isMenuOpen s \<and> aria_expanded s' = aria_expanded s)"
  using nav_listener_sync_or_same[of pg e s s']
  by (auto simp: nav_dispatch_def split: if_splits)

lemma nav_dispatch_preserves_sync:
  "expanded_in_sync s \<Longrightarrow> nav_dispatch pg e s = Inr s' \<Longrightarrow> expanded_in_sync s'"
  using nav_dispatch_sync_or_same[of pg e s s'] by (auto simp: expanded_in_sync_def)

lemma nav_run_preserves_sync:
  "expanded_in_sync s \<Longrightarrow> expanded_in_sync (snd (nav_run pg es s))"
proof (induction es arbitrary: s)
  case Nil
  then show ?case by simp
next
  case (Cons e es)
  show ?case
  proof (cases "nav_dispatch pg e s")
    case (Inl f)
    then show ?thesis using Cons.IH[OF Cons.prems] by (simp add: split_def Let_def)
  next
    case (Inr s1)
    then show ?thesis
      using Cons.IH[OF nav_dispatch_preserves_sync[OF Cons.prems Inr]] by simp
  qed
qed

lemma nav_run_sync_or_same:
  "expanded_in_sync (snd (nav_run pg es s))
   \<or> (isMenuOpen (snd (nav_run pg es s)) = isMenuOpen s
      \<and> aria_expanded (snd (nav_run pg es s)) = aria_expanded s)"
proof (induction es arbitrary: s)
  case Nil
  then show ?case by simp
next
  case (Cons e es)
  show ?case
  proof (cases "nav_dispatch pg e s")
    case (Inl f)
    then show ?thesis using Cons.IH[of s] by (simp add: split_def Let_def)
  next
    case (Inr s1)
    from nav_dispatch_sync_or_same[OF Inr] show ?thesis
    proof
      assume "expanded_in_sync s1"
      then show ?thesis using nav_run_preserves_sync[of s1 pg es] Inr by simp
    next
      assume "isMenuOpen s1 = isMenuOpen s \<and> aria_expanded s1 = aria_expanded s"
      then show ?thesis using Cons.IH[of s1] Inr by auto
    qed
  qed
qed

text \<open>
  C1. Whatever the page and the sequence of navigation events (toggle click or touch,
  click reaching the document, key press, resize): if \<open>aria-expanded\<close> agrees with
  \<open>isMenuOpen\<close> before the sequence, it agrees after it, hence after each event of it (every
  prefix is a sequence). From any start, after any sequence the two agree or neither
  has changed: no listener changes one without the other. The toggle and the close
  always leave them in agreement.
\<close>

theorem aria_expanded_follows_isMenuOpen:
  "(expanded_in_sync s \<longrightarrow> expanded_in_sync (snd (nav_run pg es s)))
   \<and> (expanded_in_sync (snd (nav_run pg es s))
      \<or> (isMenuOpen (snd (nav_run pg es s)) = isMenuOpen s
         \<and> aria_expanded (snd (nav_run pg es s)) = aria_expanded s))
   \<and> expanded_in_sync (toggleMobileMenu pg s)
   \<and> expanded_in_sync (closeMobileMenu s)"
  using nav_run_preserves_sync[of s pg es] nav_run_sync_or_same[of pg es s]
  by (simp add: toggleMobileMenu_in_sync closeMobileMenu_in_sync)

theorem aria_expanded_follows_isMenuOpen_witness:
  "expanded_in_sync \<lparr>isMenuOpen = False, aria_expanded = Some ''false'',
                     navMenu_classList = [], nav_focus = None\<rparr>
   \<and> expanded_in_sync
       (snd (nav_run \<lparr>navToggle_present = True, navMenu_present = True,
                      navigation_present = True, hero_present = True, nav_link_present = True\<rparr>
               [ToggleClick, DocumentClick True, DocumentKeyDown ''Escape'', ToggleTouchEnd,
                WindowResize 1024, ToggleClick, DocumentClick False]
               \<lparr>isMenuOpen = False, aria_expanded = Some ''false'',
                navMenu_classList = [], nav_focus = None\<rparr>))
   \<and> isMenuOpen
       (snd (nav_run \<lparr>navToggle_present = True, navMenu_present = True,
                      navigation_present = True, hero_present = True, nav_link_present = True\<rparr>
               [ToggleClick, DocumentClick True]
               \<lparr>isMenuOpen = False, aria_expanded = Some ''false'',
                navMenu_classList = [], nav_focus = None\<rparr>))"
  using aria_expanded_follows_isMenuOpen
          [of "\<lparr>isMenuOpen = False, aria_expanded = Some ''false'',
                 navMenu_classList = [], nav_focus = None\<rparr>"
              "\<lparr>navToggle_present = True, navMenu_present = True,
                navigation_present = True, hero_present = True, nav_link_present = True\<rparr>"
              "[ToggleClick, DocumentClick True, DocumentKeyDown ''Escape'', ToggleTouchEnd,
                WindowResize 1024, ToggleClick, DocumentClick False]"]
  by (simp add: expanded_in_sync_def toString_def nav_dispatch_def setupMobileNavigation_def
        toggleMobileMenu_def closeMobileMenu_def Let_def classList_add_def classList_remove_def)

text \<open>
  C6 fails on the mobile navigation. \<open>setupMobileNavigation\<close> checks \<open>navToggle\<close> and
  \<open>navMenu\<close> but not \<open>navigation\<close>, which its click listener dereferences: on a page with
  the toggle and the menu and no \<open>.hamburger-nav\<close> element the feature is set up, and the
  first click that reaches the document while the menu is open raises a TypeError
  (the click that opens the menu is such a click: it bubbles from the toggle).
  \<open>setupScrollBehavior\<close> does check \<open>navigation\<close> (line 99) and is not set up on that
  page.
\<close>

theorem missing_navigation_raises_TypeError:
  "setupMobileNavigation \<lparr>navToggle_present = True, navMenu_present = True,
        navigation_present = False, hero_present = True, nav_link_present = True\<rparr>
   \<and> \<not> setupScrollBehavior \<lparr>navToggle_present = True, navMenu_present = True,
        navigation_present = False, hero_present = True, nav_link_present = True\<rparr>
   \<and> nav_run \<lparr>navToggle_present = True, navMenu_present = True,
        navigation_present = False, hero_present = True, nav_link_present = True\<rparr>
        [ToggleClick, DocumentClick False]
        \<lparr>isMenuOpen = False, aria_expanded = Some ''false'', navMenu_classList = [],
         nav_focus = None\<rparr>
     = ([TypeError],
        \<lparr>isMenuOpen = True, aria_expanded = Some ''true'',
         navMenu_classList = [''nav-menu--open''], nav_focus = Some FirstNavLink\<rparr>)"
  by (simp add: setupMobileNavigation_def setupScrollBehavior_def nav_dispatch_def
        toggleMobileMenu_def Let_def toString_def classList_add_def)

subsection \<open>Modal dialog\<close>

lemma closeModal_clears [simp]: "activeModalTrigger (closeModal s) = None"
  by (simp add: closeModal_def Let_def split: option.splits)

lemma closeModal_display [simp]: "modal_display (closeModal s) = ''none''"
  by (simp add: closeModal_def Let_def split: option.splits)


lemma openModal_records [simp]: "activeModalTrigger (openModal t s) = Some t"
  by (simp add: openModal_def)

lemma openModal_display [simp]: "modal_display (openModal t s) = ''flex''"
  by (simp add: openModal_def)








text \<open>
  C8. The submit listener of the embedded form leaves the event as it found it (it never
  cancels it) and does one thing: it sets a timer of 1000 ms. It reads no answer of the
  external service. When that timer runs, its callback first calls \<open>window.open\<close> on the
  fixed document path with the target \<open>_blank\<close> and then runs \<open>closeModal\<close>: the log
  grows by the \<open>window.open\<close> call followed by the writes of the close.
\<close>

theorem modal_submit_opens_pdf_then_closes:
  "fst (modal_form_submit event s) = event
   \<and> defaultPrevented (fst (modal_form_submit event s)) = defaultPrevented event
   \<and> snd (modal_form_submit event s)
       = s\<lparr>pending := pending s @ [(OpenPdfThenClose, 1000)],
           log := log s @ [SetTimeout OpenPdfThenClose 1000]\<rparr>
   \<and> run_callback pg OpenPdfThenClose s'
       = closeModal (s'\<lparr>log := log s' @ [WindowOpen ''/neuroinclusive-interview-tips.pdf'' ''_blank'']\<rparr>)
   \<and> log (run_callback pg OpenPdfThenClose s')
       = log s' @ [WindowOpen ''/neuroinclusive-interview-tips.pdf'' ''_blank'',
                   ModalDisplay ''none'', ModalAriaHidden ''true'', BodyOverflow '''']
           @ (case activeModalTrigger s' of None \<Rightarrow> [] | Some t \<Rightarrow> [Focus (Opener t)])
   \<and> modal_display (run_callback pg OpenPdfThenClose s') = ''none''
   \<and> modal_listener pg (TimerFires (length (pending s)))
        (snd (modal_form_submit event s))
       = run_callback pg OpenPdfThenClose
           (s\<lparr>log := log s @ [SetTimeout OpenPdfThenClose 1000]\<rparr>)"
  by (simp add: modal_form_submit_def closeModal_def Let_def split: option.splits)

theorem modal_submit_witness:
  "log (modal_run \<lparr>contactModalTrigger_present = True, leadMagnetTrigger_present = True,
        contactTrigger_present = True, modal_present = True, modalClose_present = True,
        modalOverlay_present = True, form_present = True, modal_input_present = False\<rparr>
        [FormSubmit, TimerFires 0]
        \<lparr>activeModalTrigger = Some LeadMagnetTrigger, modal_display = ''flex'',
         modal_aria_hidden = Some ''false'', body_overflow = ''hidden'', modal_focus = None,
         pending = [], log = []\<rparr>)
   = [SetTimeout OpenPdfThenClose 1000,
      WindowOpen ''/neuroinclusive-interview-tips.pdf'' ''_blank'',
      ModalDisplay ''none'', ModalAriaHidden ''true'', BodyOverflow '''',
      Focus (Opener LeadMagnetTrigger)]"
  using modal_submit_opens_pdf_then_closes
          [of "\<lparr>defaultPrevented = False\<rparr>"
              "\<lparr>activeModalTrigger = Some LeadMagnetTrigger, modal_display = ''flex'',
                modal_aria_hidden = Some ''false'', body_overflow = ''hidden'', modal_focus = None,
                pending = [], log = []\<rparr>"
              "\<lparr>contactModalTrigger_present = True, leadMagnetTrigger_present = True,
                contactTrigger_present = True, modal_present = True, modalClose_present = True,
                modalOverlay_present = True, form_present = True, modal_input_present = False\<rparr>"
              "\<lparr>activeModalTrigger = Some LeadMagnetTrigger, modal_display = ''flex'',
                modal_aria_hidden = Some ''false'', body_overflow = ''hidden'', modal_focus = None,
                pending = [], log = [SetTimeout OpenPdfThenClose 1000]\<rparr>"]
  by (simp add: modal_dispatch_def modal_form_submit_def)

subsection \<open>Form validation: the rules\<close>

lemma re_match_PlusClass:
  "re_match (PlusClass p # r) s
     = (\<exists>a b. s = a @ b \<and> a \<noteq> [] \<and> list_all p a \<and> re_match r b)"
proof (induction s)
  case Nil
  show ?case by simp
next
  case (Cons x xs)
  show ?case
  proof
    assume l: "re_match (PlusClass p # r) (x # xs)"
    then have px: "p x" by simp
    from l have "re_match (PlusClass p # r) xs \<or> re_match r xs" by simp
    then show "\<exists>a b. x # xs = a @ b \<and> a \<noteq> [] \<and> list_all p a \<and> re_match r b"
    proof
      assume "re_match (PlusClass p # r) xs"
      then obtain a b where "xs = a @ b" "a \<noteq> []" "list_all p a" "re_match r b"
        using Cons.IH by blast
      then have "x # xs = (x # a) @ b \<and> x # a \<noteq> [] \<and> list_all p (x # a) \<and> re_match r b"
        using px by simp
      then show ?thesis by blast
    next
      assume "re_match r xs"
      then have "x # xs = [x] @ xs \<and> [x] \<noteq> [] \<and> list_all p [x] \<and> re_match r xs"
        using px by simp
      then show ?thesis by blast
    qed
  next
    assume "\<exists>a b. x # xs = a @ b \<and> a \<noteq> [] \<and> list_all p a \<and> re_match r b"
    then obtain a b where ab: "x # xs = a @ b" "a \<noteq> []" "list_all p a" "re_match r b"
      by blast
    then obtain a' where a: "a = x # a'" by (cases a) auto
    with ab have xs: "xs = a' @ b" and px: "p x" and pa: "list_all p a'" by auto
    show "re_match (PlusClass p # r) (x # xs)"
    proof (cases "a' = []")
      case True
      then show ?thesis using xs px ab(4) by simp
    next
      case False
      then have "re_match (PlusClass p # r) xs" using Cons.IH xs pa ab(4) by blast
      then show ?thesis using px by simp
    qed
  qed
qed

lemma re_match_Literal:
  "re_match (Literal c # r) s = (\<exists>b. s = c # b \<and> re_match r b)"
  by (cases s) auto

lemma emailRegex_test_iff:
  "emailRegex_test s
     = (\<exists>l dm t. s = l @ [0x40] @ dm @ [0x2E] @ t \<and> l \<noteq> [] \<and> dm \<noteq> [] \<and> t \<noteq> []
          \<and> list_all notSpaceAt l \<and> list_all notSpaceAt dm \<and> list_all notSpaceAt t)"
  unfolding emailRegex_test_def emailRegex_def re_match_PlusClass re_match_Literal
  by (simp; blast)

lemma field_verdict_eq:
  "field_verdict f =
     (if required f \<and> trim (evalue f) = [] then (False, ''This field is required.'')
      else if etype f = ''email'' \<and> trim (evalue f) \<noteq> [] \<and> \<not> emailRegex_test (trim (evalue f))
      then (False, ''Please enter a valid email address.'')
      else (True, ''''))"
  by (simp add: field_verdict_def Let_def)

lemma emailRegex_a_b_co: "emailRegex_test (js ''a@b.co'')"
  by (simp add: js_def emailRegex_test_def emailRegex_def notSpaceAt_def isWhiteSpace_def)

lemma emailRegex_a_b: "\<not> emailRegex_test (js ''a@b'')"
  by (simp add: js_def emailRegex_test_def emailRegex_def notSpaceAt_def isWhiteSpace_def)

subsection \<open>Form validation: lookups\<close>

lemma errorId_neq [simp]: "x @ ''-error'' \<noteq> x" "x \<noteq> x @ ''-error''" "x @ ''-error'' \<noteq> []"
  by simp_all

lemma getElementById_Some_iff:
  "getElementById d x = Some e \<longleftrightarrow>
     (x \<noteq> [] \<and> e < length d \<and> attached (d ! e) \<and> el_id (d ! e) = x
      \<and> (\<forall>j<e. \<not> (attached (d ! j) \<and> el_id (d ! j) = x)))"
  by (auto simp: getElementById_def find_Some_iff)

lemma getElementById_None_iff:
  "getElementById d x = None \<longleftrightarrow>
     (x = [] \<or> (\<forall>n<length d. \<not> (attached (d ! n) \<and> el_id (d ! n) = x)))"
  by (auto simp: getElementById_def find_None_iff)

lemma getElementById_eqI:
  assumes le: "length d \<le> length d'"
    and old: "\<And>n. n < length d \<Longrightarrow>
              (attached (d' ! n) \<and> el_id (d' ! n) = x) = (attached (d ! n) \<and> el_id (d ! n) = x)"
    and new: "\<And>n. length d \<le> n \<Longrightarrow> n < length d' \<Longrightarrow> \<not> (attached (d' ! n) \<and> el_id (d' ! n) = x)"
  shows "getElementById d' x = getElementById d x"
proof (cases "getElementById d x")
  case None
  then have "x = [] \<or> (\<forall>n<length d. \<not> (attached (d ! n) \<and> el_id (d ! n) = x))"
    by (simp add: getElementById_None_iff)
  then have "x = [] \<or> (\<forall>n<length d'. \<not> (attached (d' ! n) \<and> el_id (d' ! n) = x))"
    using old new by (metis not_le_imp_less)
  then have "getElementById d' x = None" by (simp only: getElementById_None_iff)
  then show ?thesis using None by simp
next
  case (Some e)
  then have e: "x \<noteq> []" "e < length d" "attached (d ! e)" "el_id (d ! e) = x"
    "\<forall>j<e. \<not> (attached (d ! j) \<and> el_id (d ! j) = x)"
    by (simp_all add: getElementById_Some_iff)
  have "attached (d' ! e) \<and> el_id (d' ! e) = x" using old[OF e(2)] e(3,4) by simp
  moreover have "\<forall>j<e. \<not> (attached (d' ! j) \<and> el_id (d' ! j) = x)"
    using old e(2,5) by (metis less_trans)
  ultimately have "getElementById d' x = Some e"
    using e(1,2) le by (simp add: getElementById_Some_iff)
  then show ?thesis using Some by simp
qed

subsection \<open>Form validation: what an operation on a field changes\<close>

lemma frame_refl: "field < length d \<Longrightarrow> frame d d field"
  by (simp add: frame_def)

lemma frame_trans:
  assumes a: "frame d d1 f" and b: "frame d1 d2 f"
  shows "frame d d2 f"
proof -
  have id: "el_id (d1 ! f) = el_id (d ! f)" using a by (simp add: frame_def)
  have l: "f < length d" "length d \<le> length d1" "length d1 \<le> length d2"
    using a b by (simp_all add: frame_def)
  show ?thesis
    unfolding frame_def
  proof (intro conjI allI impI)
    show "f < length d" by (rule l(1))
    show "length d \<le> length d2" using l by simp
  next
    fix n assume n: "n < length d"
    then have n1: "n < length d1" using l by simp
    show "el_id (d2 ! n) = el_id (d ! n)" using a b n n1 by (simp add: frame_def)
    show "localName (d2 ! n) = localName (d ! n)" using a b n n1 by (simp add: frame_def)
    show "etype (d2 ! n) = etype (d ! n)" using a b n n1 by (simp add: frame_def)
    show "evalue (d2 ! n) = evalue (d ! n)" using a b n n1 by (simp add: frame_def)
    show "required (d2 ! n) = required (d ! n)" using a b n n1 by (simp add: frame_def)
  next
    fix n assume n: "n < length d" "n \<noteq> f"
    then have n1: "n < length d1" using l by simp
    show "aria_invalid (d2 ! n) = aria_invalid (d ! n)" using a b n n1 by (simp add: frame_def)
    show "aria_describedby (d2 ! n) = aria_describedby (d ! n)"
      using a b n n1 by (simp add: frame_def)
    show "style_borderColor (d2 ! n) = style_borderColor (d ! n)"
      using a b n n1 by (simp add: frame_def)
  next
    fix n assume n: "n < length d" "el_id (d ! n) \<noteq> el_id (d ! f) @ ''-error''"
    then have n1: "n < length d1" using l by simp
    have e1: "el_id (d1 ! n) = el_id (d ! n)" using a n by (simp add: frame_def)
    have s1: "attached (d1 ! n) = attached (d ! n) \<and> textContent (d1 ! n) = textContent (d ! n)"
      using a n by (simp add: frame_def)
    have s2: "attached (d2 ! n) = attached (d1 ! n) \<and> textContent (d2 ! n) = textContent (d1 ! n)"
      using b n1 n(2) e1 id by (simp add: frame_def)
    show "attached (d2 ! n) = attached (d ! n)" using s1 s2 by simp
    show "textContent (d2 ! n) = textContent (d ! n)" using s1 s2 by simp
  next
    fix n assume n: "length d \<le> n" "n < length d2"
    show "el_id (d2 ! n) = el_id (d ! f) @ ''-error''"
    proof (cases "n < length d1")
      case True
      then have "el_id (d2 ! n) = el_id (d1 ! n)" using b by (simp add: frame_def)
      moreover have "el_id (d1 ! n) = el_id (d ! f) @ ''-error''"
        using a n(1) True by (simp add: frame_def)
      ultimately show ?thesis by simp
    next
      case False
      then show ?thesis using b n(2) id by (simp add: frame_def)
    qed
  qed
qed

lemma clearFieldError_length [simp]: "length (clearFieldError d f) = length d"
  by (simp add: clearFieldError_def Let_def split: option.splits)

lemma clearFieldError_frame:
  assumes f: "f < length d"
  shows "frame d (clearFieldError d f) f"
  using f
  by (auto simp: frame_def clearFieldError_def Let_def nth_list_update getElementById_Some_iff
      split: option.splits)

lemma showFieldError_frame:
  assumes f: "f < length d" and s: "showFieldError d f m = Inr d'"
  shows "frame d d' f"
  using f s
  by (auto simp: frame_def showFieldError_def Let_def nth_list_update nth_append
      getElementById_Some_iff new_errorElement_def
      split: option.splits if_splits)

lemma getElementById_update_same:
  assumes "n < length d" "attached x = attached (d ! n)" "el_id x = el_id (d ! n)"
  shows "getElementById (d[n := x]) y = getElementById d y"
  by (rule getElementById_eqI) (use assms in \<open>auto simp: nth_list_update\<close>)

lemma getElementById_append_new:
  assumes "getElementById d x = None" "x \<noteq> []" "attached e" "el_id e = x"
  shows "getElementById (d @ [e]) x = Some (length d)"
  using assms by (auto simp: getElementById_Some_iff getElementById_None_iff nth_append)

lemma showFieldError_found:
  assumes f: "f < length d" and g: "getElementById d (el_id (d ! f) @ ''-error'') = Some e"
  shows "showFieldError d f m = Inr (d[e := (d ! e)\<lparr>textContent := m\<rparr>, f := shown (d ! f)])"
proof -
  from g have e: "e < length d" "el_id (d ! e) = el_id (d ! f) @ ''-error''"
    by (simp_all add: getElementById_Some_iff)
  then have ne: "e \<noteq> f" by auto
  have g2: "getElementById
              (d[f := (d ! f)\<lparr>aria_invalid := Some ''true'',
                              style_borderColor := ''var(--color-callout)''\<rparr>])
              (el_id (d ! f) @ ''-error'') = Some e"
    using f g by (simp add: getElementById_update_same)
  show ?thesis
    using f e ne g2
    by (simp add: showFieldError_def Let_def shown_def list_update_swap[of e f])
qed

lemma showFieldError_created:
  assumes f: "f < length d" and g: "getElementById d (el_id (d ! f) @ ''-error'') = None"
    and a: "attached (d ! f)"
  shows "showFieldError d f m
           = Inr (d[f := shown (d ! f)]
                  @ [(new_errorElement (el_id (d ! f) @ ''-error''))
                       \<lparr>attached := True, textContent := m\<rparr>])"
proof -
  have g2: "getElementById
              (d[f := (d ! f)\<lparr>aria_invalid := Some ''true'',
                              style_borderColor := ''var(--color-callout)''\<rparr>])
              (el_id (d ! f) @ ''-error'') = None"
    using f g by (simp add: getElementById_update_same)
  have u: "\<And>xs (x::element) y. length xs = length d \<Longrightarrow> (xs @ [x])[length d := y] = xs @ [y]"
    by (metis list_update_length)
  show ?thesis
    using f a g2
    by (simp add: showFieldError_def Let_def shown_def u list_update_append1 nth_append)
qed

lemma showFieldError_detached:
  assumes f: "f < length d" and g: "getElementById d (el_id (d ! f) @ ''-error'') = None"
    and a: "\<not> attached (d ! f)"
  shows "showFieldError d f m = Inl TypeError"
proof -
  have g2: "getElementById
              (d[f := (d ! f)\<lparr>aria_invalid := Some ''true'',
                              style_borderColor := ''var(--color-callout)''\<rparr>])
              (el_id (d ! f) @ ''-error'') = None"
    using f g by (simp add: getElementById_update_same)
  show ?thesis using f a g2 by (simp add: showFieldError_def Let_def)
qed

lemma showFieldError_shows:
  assumes f: "f < length d" and s: "showFieldError d f m = Inr d'"
  shows "shows_error d' f m"
proof (cases "getElementById d (el_id (d ! f) @ ''-error'')")
  case None
  then have a: "attached (d ! f)" using showFieldError_detached[OF f None, of m] s by auto
  have d': "d' = d[f := shown (d ! f)]
                  @ [(new_errorElement (el_id (d ! f) @ ''-error''))
                       \<lparr>attached := True, textContent := m\<rparr>]"
    using showFieldError_created[OF f None a, of m] s by simp
  have "getElementById (d[f := shown (d ! f)]) (el_id (d ! f) @ ''-error'') = None"
    using f None by (simp add: getElementById_update_same shown_def)
  then have "getElementById d' (el_id (d ! f) @ ''-error'') = Some (length d)"
    unfolding d' using getElementById_append_new[of "d[f := shown (d ! f)]"]
    by (simp add: new_errorElement_def)
  then show ?thesis using f by (simp add: shows_error_def d' nth_append shown_def)
next
  case (Some e)
  from Some have e: "e < length d" "el_id (d ! e) = el_id (d ! f) @ ''-error''"
    by (simp_all add: getElementById_Some_iff)
  then have ne: "e \<noteq> f" by auto
  have d': "d' = d[e := (d ! e)\<lparr>textContent := m\<rparr>, f := shown (d ! f)]"
    using showFieldError_found[OF f Some, of m] s by simp
  have "getElementById d' (el_id (d ! f) @ ''-error'') = Some e"
    unfolding d' using f e ne Some by (simp add: getElementById_update_same shown_def)
  then show ?thesis using f e ne by (simp add: shows_error_def d' shown_def)
qed

lemma frame_getElementById:
  assumes fr: "frame d d' f" and x: "x \<noteq> el_id (d ! f) @ ''-error''"
  shows "getElementById d' x = getElementById d x"
proof (rule getElementById_eqI)
  show "length d \<le> length d'" using fr by (simp add: frame_def)
next
  fix n assume n: "n < length d"
  have id: "el_id (d' ! n) = el_id (d ! n)" using fr n by (simp add: frame_def)
  show "(attached (d' ! n) \<and> el_id (d' ! n) = x) = (attached (d ! n) \<and> el_id (d ! n) = x)"
  proof (cases "el_id (d ! n) = x")
    case True
    then have "attached (d' ! n) = attached (d ! n)" using fr n x by (simp add: frame_def)
    then show ?thesis using id by simp
  next
    case False
    then show ?thesis using id by simp
  qed
next
  fix n assume "length d \<le> n" "n < length d'"
  then have "el_id (d' ! n) = el_id (d ! f) @ ''-error''" using fr by (simp add: frame_def)
  then show "\<not> (attached (d' ! n) \<and> el_id (d' ! n) = x)" using x by simp
qed

lemma frame_shows_error:
  assumes fr: "frame d d' f" and k: "k \<noteq> f" "el_id (d ! k) \<noteq> el_id (d ! f)"
    and s: "shows_error d k m"
  shows "shows_error d' k m"
proof -
  from s have kl: "k < length d" by (simp add: shows_error_def)
  from s obtain e where e: "getElementById d (el_id (d ! k) @ ''-error'') = Some e"
    "textContent (d ! e) = m"
    by (auto simp: shows_error_def split: option.splits)
  have x: "el_id (d ! k) @ ''-error'' \<noteq> el_id (d ! f) @ ''-error''" using k by simp
  have el: "e < length d" "el_id (d ! e) = el_id (d ! k) @ ''-error''"
    using e(1) by (simp_all add: getElementById_Some_iff)
  have idk: "el_id (d' ! k) = el_id (d ! k)" using fr kl by (simp add: frame_def)
  have g: "getElementById d' (el_id (d ! k) @ ''-error'') = Some e"
    using frame_getElementById[OF fr x] e(1) by simp
  have t: "textContent (d' ! e) = m" using fr el x e(2) by (simp add: frame_def)
  have a: "aria_invalid (d' ! k) = aria_invalid (d ! k)"
    "aria_describedby (d' ! k) = aria_describedby (d ! k)"
    using fr kl k(1) by (simp_all add: frame_def)
  have "k < length d'" using fr kl by (simp add: frame_def)
  then show ?thesis using s a idk g t by (simp add: shows_error_def)
qed

lemma validateField_attached:
  assumes f: "f < length d" and a: "attached (d ! f)"
  shows "\<exists>d'. validateField d f = Inr (fst (field_verdict (d ! f)), d') \<and> frame d d' f
              \<and> (\<not> fst (field_verdict (d ! f)) \<longrightarrow> shows_error d' f (snd (field_verdict (d ! f))))"
proof (cases "fst (field_verdict (d ! f))")
  case True
  then show ?thesis using f clearFieldError_frame[OF f]
    by (simp add: validateField_def split_def Let_def)
next
  case False
  let ?d1 = "clearFieldError d f"
  let ?m = "snd (field_verdict (d ! f))"
  have f1: "f < length ?d1" using f by simp
  have fr1: "frame d ?d1 f" by (rule clearFieldError_frame[OF f])
  then have a1: "attached (?d1 ! f)" using a f by (simp add: frame_def)
  obtain d' where s: "showFieldError ?d1 f ?m = Inr d'"
  proof (cases "getElementById ?d1 (el_id (?d1 ! f) @ ''-error'')")
    case None
    then show ?thesis using showFieldError_created[OF f1 None a1] that by blast
  next
    case (Some e)
    then show ?thesis using showFieldError_found[OF f1 Some] that by blast
  qed
  have fr2: "frame ?d1 d' f" by (rule showFieldError_frame[OF f1 s])
  have "validateField d f = Inr (False, d')"
    using f False s by (simp add: validateField_def split_def Let_def)
  then show ?thesis
    using False frame_trans[OF fr1 fr2] showFieldError_shows[OF f1 s] by simp
qed

subsection \<open>Form validation: the whole form\<close>

lemma frame_field_verdict:
  "frame d d' f \<Longrightarrow> n < length d \<Longrightarrow> field_verdict (d' ! n) = field_verdict (d ! n)"
  by (simp add: field_verdict_eq frame_def)

lemma required_empty_verdict:
  "required f \<Longrightarrow> trim (evalue f) = [] \<Longrightarrow> field_verdict f = (False, ''This field is required.'')"
  by (simp add: field_verdict_eq)

lemma validateField_valid:
  "f < length d \<Longrightarrow> fst (field_verdict (d ! f)) \<Longrightarrow>
   validateField d f = Inr (True, clearFieldError d f)"
  by (simp add: validateField_def split_def Let_def)

lemma validate_each_all_valid:
  assumes "\<forall>i\<in>set is. i < length d \<and> fst (field_verdict (d ! i))"
  shows "\<exists>d'. validate_each d is acc = Inr (acc, d')"
  using assms
proof (induction "is" arbitrary: d acc)
  case Nil
  show ?case by simp
next
  case (Cons i ks)
  let ?d1 = "clearFieldError d i"
  have i: "i < length d" "fst (field_verdict (d ! i))" using Cons.prems by simp_all
  have fr: "frame d ?d1 i" by (rule clearFieldError_frame[OF i(1)])
  have "\<forall>k\<in>set ks. k < length ?d1 \<and> fst (field_verdict (?d1 ! k))"
    using Cons.prems frame_field_verdict[OF fr] by simp
  from Cons.IH[OF this, of acc] obtain d' where "validate_each ?d1 ks acc = Inr (acc, d')"
    by blast
  then show ?case using validateField_valid[OF i] by simp
qed

lemma validate_each_spec:
  assumes ok: "\<forall>i\<in>set is. i < length d \<and> attached (d ! i)"
    and ids: "distinct (map (\<lambda>i. el_id (d ! i)) is)"
    and noerr: "\<forall>i\<in>set is. \<forall>k\<in>set is. el_id (d ! i) \<noteq> el_id (d ! k) @ ''-error''"
  shows "\<exists>d'. validate_each d is acc
                = Inr (acc \<and> (\<forall>i\<in>set is. fst (field_verdict (d ! i))), d')
            \<and> (\<forall>i\<in>set is. \<not> fst (field_verdict (d ! i)) \<longrightarrow>
                  shows_error d' i (snd (field_verdict (d ! i))))
            \<and> (\<forall>k m. k \<notin> set is \<longrightarrow> (\<forall>i\<in>set is. el_id (d ! k) \<noteq> el_id (d ! i)) \<longrightarrow>
                  shows_error d k m \<longrightarrow> shows_error d' k m)"
  using assms
proof (induction "is" arbitrary: d acc)
  case Nil
  show ?case by simp
next
  case (Cons i ks)
  have i: "i < length d" "attached (d ! i)" using Cons.prems(1) by simp_all
  let ?v = "field_verdict (d ! i)"
  obtain d1 where v: "validateField d i = Inr (fst ?v, d1)" and fr: "frame d d1 i"
    and sh: "\<not> fst ?v \<longrightarrow> shows_error d1 i (snd ?v)"
    using validateField_attached[OF i] by blast
  have len: "length d \<le> length d1" using fr by (simp add: frame_def)
  have id1: "\<And>n. n < length d \<Longrightarrow> el_id (d1 ! n) = el_id (d ! n)"
    using fr by (simp add: frame_def)
  have kl: "\<And>k. k \<in> set ks \<Longrightarrow> k < length d" using Cons.prems(1) by simp
  have ok1: "\<forall>k\<in>set ks. k < length d1 \<and> attached (d1 ! k)"
  proof
    fix k assume k: "k \<in> set ks"
    have "el_id (d ! k) \<noteq> el_id (d ! i) @ ''-error''" using Cons.prems(3) k by simp
    then have "attached (d1 ! k) = attached (d ! k)" using fr kl[OF k] by (simp add: frame_def)
    then show "k < length d1 \<and> attached (d1 ! k)" using Cons.prems(1) k len by auto
  qed
  have m: "map (\<lambda>k. el_id (d1 ! k)) ks = map (\<lambda>k. el_id (d ! k)) ks"
    using id1 kl by simp
  have "distinct (map (\<lambda>k. el_id (d ! k)) ks)" using Cons.prems(2) by simp
  then have ids1: "distinct (map (\<lambda>k. el_id (d1 ! k)) ks)" unfolding m .
  have noerr1: "\<forall>a\<in>set ks. \<forall>b\<in>set ks. el_id (d1 ! a) \<noteq> el_id (d1 ! b) @ ''-error''"
    using Cons.prems(3) id1 kl by simp
  from Cons.IH[OF ok1 ids1 noerr1, of "acc \<and> fst ?v"] obtain d' where
    r: "validate_each d1 ks (acc \<and> fst ?v)
          = Inr ((acc \<and> fst ?v) \<and> (\<forall>k\<in>set ks. fst (field_verdict (d1 ! k))), d')"
    and s: "\<forall>k\<in>set ks. \<not> fst (field_verdict (d1 ! k)) \<longrightarrow>
              shows_error d' k (snd (field_verdict (d1 ! k)))"
    and p: "\<forall>k m. k \<notin> set ks \<longrightarrow> (\<forall>j\<in>set ks. el_id (d1 ! k) \<noteq> el_id (d1 ! j)) \<longrightarrow>
              shows_error d1 k m \<longrightarrow> shows_error d' k m"
    by blast
  have vk: "\<And>k. k \<in> set ks \<Longrightarrow> field_verdict (d1 ! k) = field_verdict (d ! k)"
    using frame_field_verdict[OF fr] kl by simp
  have ink: "i \<notin> set ks" using Cons.prems(2) by auto
  have idi: "\<forall>j\<in>set ks. el_id (d1 ! i) \<noteq> el_id (d1 ! j)"
    using Cons.prems(2) id1 i(1) kl by auto
  have c1: "validate_each d (i # ks) acc
              = Inr (acc \<and> (\<forall>k\<in>set (i # ks). fst (field_verdict (d ! k))), d')"
    using v r vk by (auto simp: conj_ac)
  have c2: "\<forall>k\<in>set (i # ks). \<not> fst (field_verdict (d ! k)) \<longrightarrow>
              shows_error d' k (snd (field_verdict (d ! k)))"
  proof
    fix k assume k: "k \<in> set (i # ks)"
    show "\<not> fst (field_verdict (d ! k)) \<longrightarrow> shows_error d' k (snd (field_verdict (d ! k)))"
    proof (cases "k = i")
      case True
      then show ?thesis using sh p ink idi by blast
    next
      case False
      then have "k \<in> set ks" using k by simp
      then show ?thesis using s vk by simp
    qed
  qed
  have c3: "\<forall>k m. k \<notin> set (i # ks) \<longrightarrow> (\<forall>j\<in>set (i # ks). el_id (d ! k) \<noteq> el_id (d ! j)) \<longrightarrow>
              shows_error d k m \<longrightarrow> shows_error d' k m"
  proof (intro allI impI)
    fix k m
    assume k: "k \<notin> set (i # ks)" and kid: "\<forall>j\<in>set (i # ks). el_id (d ! k) \<noteq> el_id (d ! j)"
      and se: "shows_error d k m"
    have klen: "k < length d" using se by (simp add: shows_error_def)
    have "shows_error d1 k m"
      using frame_shows_error[OF fr _ _ se] k kid by simp
    moreover have "\<forall>j\<in>set ks. el_id (d1 ! k) \<noteq> el_id (d1 ! j)"
      using kid id1 klen kl by simp
    ultimately show "shows_error d' k m" using p k by simp
  qed
  show ?case using c1 c2 c3 by blast
qed

lemma validate_each_returns:
  assumes ok: "\<forall>i\<in>set is. i < length d \<and> attached (d ! i)"
    and noerr: "\<forall>i\<in>set is. \<forall>k\<in>set is. el_id (d ! i) \<noteq> el_id (d ! k) @ ''-error''"
  shows "\<exists>d'. validate_each d is acc
                = Inr (acc \<and> (\<forall>i\<in>set is. fst (field_verdict (d ! i))), d')"
  using assms
proof (induction "is" arbitrary: d acc)
  case Nil
  show ?case by simp
next
  case (Cons i ks)
  have i: "i < length d" "attached (d ! i)" using Cons.prems(1) by simp_all
  let ?v = "field_verdict (d ! i)"
  obtain d1 where v: "validateField d i = Inr (fst ?v, d1)" and fr: "frame d d1 i"
    using validateField_attached[OF i] by blast
  have len: "length d \<le> length d1" using fr by (simp add: frame_def)
  have id1: "\<And>n. n < length d \<Longrightarrow> el_id (d1 ! n) = el_id (d ! n)"
    using fr by (simp add: frame_def)
  have kl: "\<And>k. k \<in> set ks \<Longrightarrow> k < length d" using Cons.prems(1) by simp
  have ok1: "\<forall>k\<in>set ks. k < length d1 \<and> attached (d1 ! k)"
  proof
    fix k assume k: "k \<in> set ks"
    have "el_id (d ! k) \<noteq> el_id (d ! i) @ ''-error''" using Cons.prems(2) k by simp
    then have "attached (d1 ! k) = attached (d ! k)" using fr kl[OF k] by (simp add: frame_def)
    then show "k < length d1 \<and> attached (d1 ! k)" using Cons.prems(1) k len by auto
  qed
  have noerr1: "\<forall>a\<in>set ks. \<forall>b\<in>set ks. el_id (d1 ! a) \<noteq> el_id (d1 ! b) @ ''-error''"
    using Cons.prems(2) id1 kl by simp
  from Cons.IH[OF ok1 noerr1, of "acc \<and> fst ?v"] obtain d' where
    r: "validate_each d1 ks (acc \<and> fst ?v)
          = Inr ((acc \<and> fst ?v) \<and> (\<forall>k\<in>set ks. fst (field_verdict (d1 ! k))), d')"
    by blast
  have vk: "\<And>k. k \<in> set ks \<Longrightarrow> field_verdict (d1 ! k) = field_verdict (d ! k)"
    using frame_field_verdict[OF fr] kl by simp
  have "validate_each d (i # ks) acc
              = Inr (acc \<and> (\<forall>k\<in>set (i # ks). fst (field_verdict (d ! k))), d')"
    using v r vk by (auto simp: conj_ac)
  then show ?case by blast
qed

lemma required_inputs_props:
  "i \<in> set (required_inputs d form) \<Longrightarrow> i < length d \<and> required (d ! i)"
  by (simp add: required_inputs_def)

lemma script_error_element_localName:
  assumes "script_error_element e"
  shows "localName e = ''div''"
proof -
  have "e = (new_errorElement (el_id e))\<lparr>attached := attached e, textContent := textContent e\<rparr>"
    using assms by (simp only: script_error_element_def)
  then have "localName e
      = localName ((new_errorElement (el_id e))\<lparr>attached := attached e, textContent := textContent e\<rparr>)"
    by (rule arg_cong)
  then show ?thesis by (simp add: new_errorElement_def)
qed

lemma required_inputs_no_error_id:
  assumes att: "\<forall>i\<in>set (required_inputs d form). attached (d ! i)"
    and own: "\<forall>e\<in>set d. \<forall>i\<in>set (required_inputs d form).
                attached e \<and> el_id e = el_id (d ! i) @ ''-error'' \<longrightarrow> script_error_element e"
  shows "\<forall>i\<in>set (required_inputs d form). \<forall>k\<in>set (required_inputs d form).
           el_id (d ! i) \<noteq> el_id (d ! k) @ ''-error''"
proof (intro ballI notI)
  fix i k
  assume i: "i \<in> set (required_inputs d form)" and k: "k \<in> set (required_inputs d form)"
    and e: "el_id (d ! i) = el_id (d ! k) @ ''-error''"
  have il: "i < length d" and tag: "localName (d ! i) = ''input'' \<or> localName (d ! i) = ''textarea''"
    using i by (simp_all add: required_inputs_def)
  have "d ! i \<in> set d" using il by simp
  moreover have "attached (d ! i)" using att i by simp
  ultimately have "script_error_element (d ! i)" using own k e by blast
  then have "localName (d ! i) = ''div''" by (rule script_error_element_localName)
  then show False using tag by simp
qed

text \<open>
  C2, as amended. When every required field of the form validates, the listener returns
  and leaves the event as it was: the submission proceeds. When the required fields
  (the \<open>input\<close> and \<open>textarea\<close> elements with \<open>required\<close>) are in the document, every
  element of the document that carries the error id of a required field is an error
  element as this script creates them, and at least one required field is empty after
  trimming, the listener returns and cancels the event, whatever the ids of the fields
  are. When in addition the required fields have pairwise different ids (two fields
  without an id have the same id), every empty required field shows the required-field
  error afterwards: it is marked invalid and described by an element of the document
  that holds the message.
\<close>

theorem contact_form_submit_cancels_and_marks:
  "((\<forall>i\<in>set (required_inputs d form). fst (field_verdict (d ! i))) \<longrightarrow>
      (\<exists>d'. contact_form_submit event d form = Inr (event, d')))
   \<and> ((\<forall>i\<in>set (required_inputs d form). attached (d ! i))
       \<and> (\<forall>e\<in>set d. \<forall>i\<in>set (required_inputs d form).
             attached e \<and> el_id e = el_id (d ! i) @ ''-error'' \<longrightarrow> script_error_element e)
       \<and> (\<exists>i\<in>set (required_inputs d form). trim (evalue (d ! i)) = []) \<longrightarrow>
      (\<exists>d'. contact_form_submit event d form = Inr (event\<lparr>defaultPrevented := True\<rparr>, d')
          \<and> (distinct (map (\<lambda>i. el_id (d ! i)) (required_inputs d form)) \<longrightarrow>
                (\<forall>i\<in>set (required_inputs d form). trim (evalue (d ! i)) = [] \<longrightarrow>
                   shows_error d' i ''This field is required.''))))"
proof (intro conjI impI)
  assume a: "\<forall>i\<in>set (required_inputs d form). fst (field_verdict (d ! i))"
  have "\<forall>i\<in>set (required_inputs d form). i < length d \<and> fst (field_verdict (d ! i))"
    using a required_inputs_props by blast
  from validate_each_all_valid[OF this, of True]
  show "\<exists>d'. contact_form_submit event d form = Inr (event, d')"
    by (auto simp: contact_form_submit_def validateForm_def)
next
  let ?is = "required_inputs d form"
  assume h: "(\<forall>i\<in>set ?is. attached (d ! i))
       \<and> (\<forall>e\<in>set d. \<forall>i\<in>set ?is.
             attached e \<and> el_id e = el_id (d ! i) @ ''-error'' \<longrightarrow> script_error_element e)
       \<and> (\<exists>i\<in>set ?is. trim (evalue (d ! i)) = [])"
  from h have att: "\<forall>i\<in>set ?is. attached (d ! i)" by blast
  from h have own: "\<forall>e\<in>set d. \<forall>i\<in>set ?is.
             attached e \<and> el_id e = el_id (d ! i) @ ''-error'' \<longrightarrow> script_error_element e"
    by blast
  have ok: "\<forall>i\<in>set ?is. i < length d \<and> attached (d ! i)"
    using att required_inputs_props by blast
  have noerr: "\<forall>i\<in>set ?is. \<forall>k\<in>set ?is. el_id (d ! i) \<noteq> el_id (d ! k) @ ''-error''"
    by (rule required_inputs_no_error_id[OF att own])
  from validate_each_returns[OF ok noerr, of True] obtain d' where
    r: "validate_each d ?is True = Inr (\<forall>i\<in>set ?is. fst (field_verdict (d ! i)), d')"
    by auto
  have e: "\<And>i. i \<in> set ?is \<Longrightarrow> trim (evalue (d ! i)) = [] \<Longrightarrow>
             field_verdict (d ! i) = (False, ''This field is required.'')"
    using required_inputs_props required_empty_verdict by blast
  from h obtain j where j: "j \<in> set ?is" "trim (evalue (d ! j)) = []" by blast
  have "\<not> fst (field_verdict (d ! j))" using e[OF j] by simp
  then have nv: "\<not> (\<forall>i\<in>set ?is. fst (field_verdict (d ! i)))" using j(1) by blast
  have c: "contact_form_submit event d form = Inr (event\<lparr>defaultPrevented := True\<rparr>, d')"
    using r nv by (simp add: contact_form_submit_def validateForm_def)
  have m: "distinct (map (\<lambda>i. el_id (d ! i)) ?is) \<longrightarrow>
             (\<forall>i\<in>set ?is. trim (evalue (d ! i)) = [] \<longrightarrow>
                shows_error d' i ''This field is required.'')"
  proof
    assume ids: "distinct (map (\<lambda>i. el_id (d ! i)) ?is)"
    from validate_each_spec[OF ok ids noerr, of True] obtain d'' where
      r': "validate_each d ?is True = Inr (\<forall>i\<in>set ?is. fst (field_verdict (d ! i)), d'')"
      and s: "\<forall>i\<in>set ?is. \<not> fst (field_verdict (d ! i)) \<longrightarrow>
                shows_error d'' i (snd (field_verdict (d ! i)))"
      by auto
    have "d'' = d'" using r r' by simp
    then show "\<forall>i\<in>set ?is. trim (evalue (d ! i)) = [] \<longrightarrow>
                 shows_error d' i ''This field is required.''"
      using s e by fastforce
  qed
  show "\<exists>d'. contact_form_submit event d form = Inr (event\<lparr>defaultPrevented := True\<rparr>, d')
          \<and> (distinct (map (\<lambda>i. el_id (d ! i)) ?is) \<longrightarrow>
                (\<forall>i\<in>set ?is. trim (evalue (d ! i)) = [] \<longrightarrow>
                   shows_error d' i ''This field is required.''))"
    using c m by blast
qed

text \<open>The definitions that evaluate a validation on a given page.\<close>

lemmas validation_defs = contact_form_submit_def validateForm_def required_inputs_def validateField_def
  field_verdict_def trim_def js_def isWhiteSpace_def clearFieldError_def showFieldError_def
  getElementById_def new_errorElement_def shows_error_def Let_def text_input_def upt_rec

text \<open>
  C2 as stated fails in two ways. Where two required fields have the same id, for
  instance no id at all: the first field is empty and gets its error element \<open>-error\<close>;
  validating the second, filled, field starts with \<open>clearFieldError\<close>, which looks up the
  same id and removes that element. The event is cancelled, but the empty field is left
  marked invalid and described by an element that is no longer in the document. Where
  the id of a required field is the error id of another, here \<open>a-error\<close> beside \<open>a\<close>:
  validating the first field removes the second from the document as if it were the
  error element of the first; the second is still validated, it is empty, and
  \<open>showFieldError\<close> raises on its missing parent. The listener ends there and the event
  is not cancelled.
\<close>

theorem same_id_loses_the_error_and_error_id_raises:
  "required_inputs [text_input '''' '''', text_input '''' ''x''] [0, 1] = [0, 1]
   \<and> trim (evalue ([text_input '''' '''', text_input '''' ''x''] ! 0)) = []
   \<and> contact_form_submit \<lparr>defaultPrevented = False\<rparr>
        [text_input '''' '''', text_input '''' ''x''] [0, 1]
     = Inr (\<lparr>defaultPrevented = True\<rparr>,
            [(text_input '''' '''')\<lparr>aria_invalid := Some ''true'',
                style_borderColor := ''var(--color-callout)'',
                aria_describedby := Some ''-error''\<rparr>,
             text_input '''' ''x'',
             (new_errorElement ''-error'')\<lparr>textContent := ''This field is required.''\<rparr>])
   \<and> \<not> shows_error
          [(text_input '''' '''')\<lparr>aria_invalid := Some ''true'',
                style_borderColor := ''var(--color-callout)'',
                aria_describedby := Some ''-error''\<rparr>,
           text_input '''' ''x'',
           (new_errorElement ''-error'')\<lparr>textContent := ''This field is required.''\<rparr>]
          0 ''This field is required.''
   \<and> required_inputs [text_input ''a'' '''', text_input ''a-error'' ''''] [0, 1] = [0, 1]
   \<and> trim (evalue ([text_input ''a'' '''', text_input ''a-error'' ''''] ! 0)) = []
   \<and> contact_form_submit \<lparr>defaultPrevented = False\<rparr>
        [text_input ''a'' '''', text_input ''a-error'' ''''] [0, 1]
     = Inl TypeError"
  by (simp add: validation_defs)

theorem contact_form_submit_witness:
  "required_inputs
     [text_input '''' '' '', text_input '''' ''x'',
      (new_errorElement ''-error'')
        \<lparr>attached := True, textContent := ''This field is required.''\<rparr>] [0, 1] = [0, 1]
   \<and> script_error_element
        ((new_errorElement ''-error'')
           \<lparr>attached := True, textContent := ''This field is required.''\<rparr>)
   \<and> (\<exists>d'. contact_form_submit \<lparr>defaultPrevented = False\<rparr>
               [text_input '''' '' '', text_input '''' ''x'',
                (new_errorElement ''-error'')
                  \<lparr>attached := True, textContent := ''This field is required.''\<rparr>] [0, 1]
             = Inr (\<lparr>defaultPrevented = True\<rparr>, d'))
   \<and> required_inputs
       [text_input ''name'' '' '', text_input ''email'' ''x'',
        (new_errorElement ''name-error'')
          \<lparr>attached := True, textContent := ''This field is required.''\<rparr>] [0, 1] = [0, 1]
   \<and> (\<exists>d'. contact_form_submit \<lparr>defaultPrevented = False\<rparr>
               [text_input ''name'' '' '', text_input ''email'' ''x'',
                (new_errorElement ''name-error'')
                  \<lparr>attached := True, textContent := ''This field is required.''\<rparr>] [0, 1]
             = Inr (\<lparr>defaultPrevented = True\<rparr>, d')
           \<and> shows_error d' 0 ''This field is required.'')"
  using contact_form_submit_cancels_and_marks
          [of "[text_input '''' '' '', text_input '''' ''x'',
                (new_errorElement ''-error'')
                  \<lparr>attached := True, textContent := ''This field is required.''\<rparr>]"
              "[0, 1]" "\<lparr>defaultPrevented = False\<rparr>"]
        contact_form_submit_cancels_and_marks
          [of "[text_input ''name'' '' '', text_input ''email'' ''x'',
                (new_errorElement ''name-error'')
                  \<lparr>attached := True, textContent := ''This field is required.''\<rparr>]"
              "[0, 1]" "\<lparr>defaultPrevented = False\<rparr>"]
  by (simp add: required_inputs_def text_input_def trim_def js_def isWhiteSpace_def upt_rec
        script_error_element_def new_errorElement_def)

subsection \<open>Form validation: error elements of a field\<close>

lemma count_id_card:
  "count_id d x = card {n. n < length d \<and> attached (d ! n) \<and> el_id (d ! n) = x}"
proof -
  let ?P = "\<lambda>n. attached (d ! n) \<and> el_id (d ! n) = x"
  have "distinct (filter ?P [0..<length d])" by simp
  then have a: "card (set (filter ?P [0..<length d])) = length (filter ?P [0..<length d])"
    by (rule distinct_card)
  have b: "set (filter ?P [0..<length d]) = {n. n < length d \<and> ?P n}" by auto
  show ?thesis unfolding count_id_def a[symmetric] b ..
qed

lemma count_id_0_iff:
  "x \<noteq> [] \<Longrightarrow> (count_id d x = 0) = (getElementById d x = None)"
  by (auto simp: count_id_def getElementById_None_iff filter_empty_conv)

lemma count_id_le1_unique:
  assumes c: "count_id d x \<le> 1"
    and n: "n < length d" "attached (d ! n)" "el_id (d ! n) = x"
    and k: "k < length d" "attached (d ! k)" "el_id (d ! k) = x"
  shows "n = k"
proof (rule ccontr)
  assume ne: "n \<noteq> k"
  let ?S = "{n. n < length d \<and> attached (d ! n) \<and> el_id (d ! n) = x}"
  have fin: "finite ?S" by simp
  have "{n, k} \<subseteq> ?S" using n k by simp
  then have "card {n, k} \<le> card ?S" using fin by (rule card_mono[rotated])
  then show False using ne c by (simp add: count_id_card)
qed

lemma count_id_update_same:
  assumes "n < length d" "attached y = attached (d ! n)" "el_id y = el_id (d ! n)"
  shows "count_id (d[n := y]) x = count_id d x"
proof -
  have "filter (\<lambda>k. attached (d[n := y] ! k) \<and> el_id (d[n := y] ! k) = x) [0..<length d]
      = filter (\<lambda>k. attached (d ! k) \<and> el_id (d ! k) = x) [0..<length d]"
    by (rule filter_cong) (use assms in \<open>auto simp: nth_list_update\<close>)
  then show ?thesis by (simp add: count_id_def)
qed

lemma count_id_append_new:
  assumes "getElementById d x = None" "x \<noteq> []" "attached e" "el_id e = x"
  shows "count_id (d @ [e]) x = 1"
proof -
  have z: "filter (\<lambda>k. attached ((d @ [e]) ! k) \<and> el_id ((d @ [e]) ! k) = x) [0..<length d] = []"
    using assms(1,2) by (auto simp: filter_empty_conv getElementById_None_iff nth_append)
  show ?thesis using assms(3,4) z by (simp add: count_id_def)
qed

lemma clearFieldError_none:
  assumes f: "f < length d" and g: "getElementById d (el_id (d ! f) @ ''-error'') = None"
  shows "clearFieldError d f = d[f := cleared (d ! f)]"
proof -
  have "getElementById (d[f := cleared (d ! f)]) (el_id (d ! f) @ ''-error'') = None"
    using f g by (simp add: getElementById_update_same cleared_def)
  then show ?thesis using f by (simp add: clearFieldError_def Let_def cleared_def)
qed

lemma clearFieldError_found:
  assumes f: "f < length d" and g: "getElementById d (el_id (d ! f) @ ''-error'') = Some e"
  shows "clearFieldError d f = d[f := cleared (d ! f), e := (d ! e)\<lparr>attached := False\<rparr>]"
proof -
  from g have e: "e < length d" "el_id (d ! e) = el_id (d ! f) @ ''-error''"
    by (simp_all add: getElementById_Some_iff)
  then have ne: "e \<noteq> f" by auto
  have "getElementById (d[f := cleared (d ! f)]) (el_id (d ! f) @ ''-error'') = Some e"
    using f g by (simp add: getElementById_update_same cleared_def)
  then show ?thesis using f ne by (simp add: clearFieldError_def Let_def cleared_def)
qed

lemma clearFieldError_no_error:
  assumes "no_error d f"
  shows "clearFieldError d f = d"
proof -
  from assms have f: "f < length d" and g: "getElementById d (el_id (d ! f) @ ''-error'') = None"
    by (simp_all add: no_error_def)
  have "cleared (d ! f) = d ! f"
    using assms by (simp add: cleared_def no_error_def)
  then show ?thesis using clearFieldError_none[OF f g] by simp
qed

lemma clearFieldError_removes:
  assumes f: "f < length d" and c: "count_id d (el_id (d ! f) @ ''-error'') \<le> 1"
  shows "getElementById (clearFieldError d f) (el_id (d ! f) @ ''-error'') = None"
proof (cases "getElementById d (el_id (d ! f) @ ''-error'')")
  case None
  then show ?thesis using f
    by (simp add: clearFieldError_none getElementById_update_same cleared_def)
next
  case (Some e)
  let ?x = "el_id (d ! f) @ ''-error''"
  from Some have e: "e < length d" "attached (d ! e)" "el_id (d ! e) = ?x"
    by (simp_all add: getElementById_Some_iff)
  then have ne: "e \<noteq> f" by auto
  let ?d' = "d[f := cleared (d ! f), e := (d ! e)\<lparr>attached := False\<rparr>]"
  have "\<forall>n<length ?d'. \<not> (attached (?d' ! n) \<and> el_id (?d' ! n) = ?x)"
  proof (intro allI impI)
    fix n assume n: "n < length ?d'"
    show "\<not> (attached (?d' ! n) \<and> el_id (?d' ! n) = ?x)"
    proof
      assume h: "attached (?d' ! n) \<and> el_id (?d' ! n) = ?x"
      then have "n \<noteq> e" using e(1) by auto
      then have "attached (d ! n) \<and> el_id (d ! n) = ?x"
        using h n f by (cases "n = f") (auto simp: cleared_def)
      then have "n = e" using count_id_le1_unique[OF c _ _ _ e] n by simp
      then show False using \<open>n \<noteq> e\<close> by simp
    qed
  qed
  then show ?thesis using clearFieldError_found[OF f Some]
    by (simp add: getElementById_None_iff)
qed

lemma clearFieldError_field:
  assumes f: "f < length d"
  shows "aria_invalid (clearFieldError d f ! f) = None"
    and "aria_describedby (clearFieldError d f ! f) = None"
    and "style_borderColor (clearFieldError d f ! f) = ''''"
    and "el_id (clearFieldError d f ! f) = el_id (d ! f)"
proof -
  have "clearFieldError d f ! f = cleared (d ! f)"
  proof (cases "getElementById d (el_id (d ! f) @ ''-error'')")
    case None
    then show ?thesis using f by (simp add: clearFieldError_none)
  next
    case (Some e)
    from Some have "el_id (d ! e) = el_id (d ! f) @ ''-error''"
      by (simp add: getElementById_Some_iff)
    then have "e \<noteq> f" by auto
    then show ?thesis using f by (simp add: clearFieldError_found[OF f Some])
  qed
  then show "aria_invalid (clearFieldError d f ! f) = None"
    and "aria_describedby (clearFieldError d f ! f) = None"
    and "style_borderColor (clearFieldError d f ! f) = ''''"
    and "el_id (clearFieldError d f ! f) = el_id (d ! f)"
    by (simp_all add: cleared_def)
qed

lemma clearFieldError_idem:
  assumes f: "f < length d" and c: "count_id d (el_id (d ! f) @ ''-error'') \<le> 1"
  shows "clearFieldError (clearFieldError d f) f = clearFieldError d f"
proof (rule clearFieldError_no_error)
  show "no_error (clearFieldError d f) f"
    using f clearFieldError_field[OF f] clearFieldError_removes[OF f c]
    by (simp add: no_error_def)
qed

lemma showFieldError_count:
  assumes f: "f < length d" and s: "showFieldError d f m = Inr d'"
  shows "count_id d' (el_id (d ! f) @ ''-error'')
           = (if getElementById d (el_id (d ! f) @ ''-error'') = None then 1
              else count_id d (el_id (d ! f) @ ''-error''))"
    and "length d' = (if getElementById d (el_id (d ! f) @ ''-error'') = None then length d + 1
                      else length d)"
proof -
  let ?x = "el_id (d ! f) @ ''-error''"
  have "count_id d' ?x = (if getElementById d ?x = None then 1 else count_id d ?x)
        \<and> length d' = (if getElementById d ?x = None then length d + 1 else length d)"
  proof (cases "getElementById d ?x")
    case None
    then have a: "attached (d ! f)" using showFieldError_detached[OF f None, of m] s by auto
    have d': "d' = d[f := shown (d ! f)]
                  @ [(new_errorElement ?x)\<lparr>attached := True, textContent := m\<rparr>]"
      using showFieldError_created[OF f None a, of m] s by simp
    have "getElementById (d[f := shown (d ! f)]) ?x = None"
      using f None by (simp add: getElementById_update_same shown_def)
    then have "count_id d' ?x = 1"
      unfolding d' by (rule count_id_append_new) (simp_all add: new_errorElement_def)
    then show ?thesis using None by (simp add: d')
  next
    case (Some e)
    from Some have e: "e < length d" by (simp add: getElementById_Some_iff)
    have d': "d' = d[e := (d ! e)\<lparr>textContent := m\<rparr>, f := shown (d ! f)]"
      using showFieldError_found[OF f Some, of m] s by simp
    have "count_id d' ?x = count_id d ?x"
      unfolding d' using f e
      by (cases "e = f") (simp_all add: count_id_update_same shown_def)
    then show ?thesis using Some by (simp add: d')
  qed
  then show "count_id d' ?x = (if getElementById d ?x = None then 1 else count_id d ?x)"
    and "length d' = (if getElementById d ?x = None then length d + 1 else length d)"
    by simp_all
qed

lemma showFieldError_returns:
  assumes f: "f < length d"
    and a: "attached (d ! f) \<or> getElementById d (el_id (d ! f) @ ''-error'') \<noteq> None"
  shows "\<exists>d'. showFieldError d f m = Inr d'"
proof (cases "getElementById d (el_id (d ! f) @ ''-error'')")
  case None
  then show ?thesis using showFieldError_created[OF f None] a by blast
next
  case (Some e)
  then show ?thesis using showFieldError_found[OF f Some] by blast
qed

subsection \<open>Form validation: the claims on one field\<close>

text \<open>
  C3. The values of \<open>isValid\<close> and \<open>errorMessage\<close> that \<open>validateField\<close> reaches are those
  of the rules taken in order, the first failure deciding: a required field whose trimmed
  value is empty gets the required message; otherwise an email field whose trimmed value
  is not empty and does not match the pattern gets the invalid-email message; every
  other field passes, with no message (so an empty field that is not required passes).
  The pattern accepts exactly the strings \<open>local@domain.tld\<close> of three non-empty runs of
  characters that are neither white space nor \<open>@\<close>: \<open>a@b.co\<close> passes and \<open>a@b\<close> fails
  with the invalid-email message. One validation clears the field and then reports at
  most one error: \<open>showFieldError\<close> runs once, with that message, exactly when the field is
  not valid; on a field of the document it returns, the field then shows the message,
  and at most one element was created.
\<close>

theorem validateField_rules_in_order:
  "field_verdict f =
     (if required f \<and> trim (evalue f) = [] then (False, ''This field is required.'')
      else if etype f = ''email'' \<and> trim (evalue f) \<noteq> [] \<and> \<not> emailRegex_test (trim (evalue f))
      then (False, ''Please enter a valid email address.'')
      else (True, ''''))
   \<and> emailRegex_test s
       = (\<exists>l dm t. s = l @ [0x40] @ dm @ [0x2E] @ t \<and> l \<noteq> [] \<and> dm \<noteq> [] \<and> t \<noteq> []
            \<and> list_all notSpaceAt l \<and> list_all notSpaceAt dm \<and> list_all notSpaceAt t)
   \<and> emailRegex_test (js ''a@b.co'')
   \<and> \<not> emailRegex_test (js ''a@b'')
   \<and> field_verdict (f\<lparr>etype := ''email'', evalue := js ''a@b.co''\<rparr>) = (True, '''')
   \<and> field_verdict (f\<lparr>etype := ''email'', evalue := js ''a@b''\<rparr>)
       = (False, ''Please enter a valid email address.'')
   \<and> (field < length d \<longrightarrow>
        validateField d field =
          (if fst (field_verdict (d ! field)) then Inr (True, clearFieldError d field)
           else case showFieldError (clearFieldError d field) field (snd (field_verdict (d ! field))) of
                  Inl e \<Rightarrow> Inl e
                | Inr d' \<Rightarrow> Inr (False, d')))
   \<and> (field < length d \<and> attached (d ! field) \<longrightarrow>
        (\<exists>d'. validateField d field = Inr (fst (field_verdict (d ! field)), d')
            \<and> (\<not> fst (field_verdict (d ! field)) \<longrightarrow>
                  shows_error d' field (snd (field_verdict (d ! field))))
            \<and> length d' \<le> length d + 1))"
proof -
  have t1: "trim (js ''a@b.co'') = js ''a@b.co''" by (simp add: trim_def js_def isWhiteSpace_def)
  have t2: "trim (js ''a@b'') = js ''a@b''" by (simp add: trim_def js_def isWhiteSpace_def)
  have n1: "js ''a@b.co'' \<noteq> []" and n2: "js ''a@b'' \<noteq> []" by (simp_all add: js_def)
  have v1: "field_verdict (f\<lparr>etype := ''email'', evalue := js ''a@b.co''\<rparr>) = (True, '''')"
    using emailRegex_a_b_co n1 by (simp add: field_verdict_eq t1)
  have v2: "field_verdict (f\<lparr>etype := ''email'', evalue := js ''a@b''\<rparr>)
              = (False, ''Please enter a valid email address.'')"
    using emailRegex_a_b n2 by (simp add: field_verdict_eq t2)
  have s1: "field < length d \<longrightarrow>
        validateField d field =
          (if fst (field_verdict (d ! field)) then Inr (True, clearFieldError d field)
           else case showFieldError (clearFieldError d field) field (snd (field_verdict (d ! field))) of
                  Inl e \<Rightarrow> Inl e
                | Inr d' \<Rightarrow> Inr (False, d'))"
    by (auto simp: validateField_def split_def Let_def split: sum.splits)
  have s2: "field < length d \<and> attached (d ! field) \<longrightarrow>
        (\<exists>d'. validateField d field = Inr (fst (field_verdict (d ! field)), d')
            \<and> (\<not> fst (field_verdict (d ! field)) \<longrightarrow>
                  shows_error d' field (snd (field_verdict (d ! field))))
            \<and> length d' \<le> length d + 1)"
  proof
    assume h: "field < length d \<and> attached (d ! field)"
    then have f: "field < length d" and a: "attached (d ! field)" by simp_all
    from validateField_attached[OF f a] obtain d' where
      v: "validateField d field = Inr (fst (field_verdict (d ! field)), d')"
      and sh: "\<not> fst (field_verdict (d ! field)) \<longrightarrow>
                 shows_error d' field (snd (field_verdict (d ! field)))"
      by blast
    have "length d' \<le> length d + 1"
    proof (cases "fst (field_verdict (d ! field))")
      case True
      then have "d' = clearFieldError d field" using v validateField_valid[OF f True] by simp
      then show ?thesis by simp
    next
      case False
      have f1: "field < length (clearFieldError d field)" using f by simp
      from v False s1 f obtain
        "showFieldError (clearFieldError d field) field (snd (field_verdict (d ! field))) = Inr d'"
        by (auto split: sum.splits)
      from showFieldError_count(2)[OF f1 this] show ?thesis by (simp split: if_splits)
    qed
    then show "\<exists>d'. validateField d field = Inr (fst (field_verdict (d ! field)), d')
            \<and> (\<not> fst (field_verdict (d ! field)) \<longrightarrow>
                  shows_error d' field (snd (field_verdict (d ! field))))
            \<and> length d' \<le> length d + 1"
      using v sh by blast
  qed
  show ?thesis
    using field_verdict_eq[of f] emailRegex_test_iff[of s] emailRegex_a_b_co emailRegex_a_b
      v1 v2 s1 s2
    by (intro conjI)
qed

theorem validateField_rules_witness:
  "validateField [(text_input ''email'' ''a@b'')\<lparr>etype := ''email''\<rparr>] 0
     = Inr (False,
            [(text_input ''email'' ''a@b'')
               \<lparr>etype := ''email'', aria_invalid := Some ''true'',
                style_borderColor := ''var(--color-callout)'',
                aria_describedby := Some ''email-error''\<rparr>,
             (new_errorElement ''email-error'')
               \<lparr>attached := True, textContent := ''Please enter a valid email address.''\<rparr>])
   \<and> validateField [(text_input ''email'' ''a@b.co'')\<lparr>etype := ''email''\<rparr>] 0
     = Inr (True, [(text_input ''email'' ''a@b.co'')\<lparr>etype := ''email''\<rparr>])
   \<and> validateField [(text_input ''company'' '' '')\<lparr>required := False\<rparr>] 0
     = Inr (True, [(text_input ''company'' '' '')\<lparr>required := False\<rparr>])
   \<and> shows_error
        [(text_input ''email'' ''a@b'')
               \<lparr>etype := ''email'', aria_invalid := Some ''true'',
                style_borderColor := ''var(--color-callout)'',
                aria_describedby := Some ''email-error''\<rparr>,
             (new_errorElement ''email-error'')
               \<lparr>attached := True, textContent := ''Please enter a valid email address.''\<rparr>]
        0 ''Please enter a valid email address.''"
  using validateField_rules_in_order
          [of "(text_input ''email'' ''a@b'')\<lparr>etype := ''email''\<rparr>" "js ''a@b''" 0
              "[(text_input ''email'' ''a@b'')\<lparr>etype := ''email''\<rparr>]"]
  by (simp add: validation_defs emailRegex_test_def emailRegex_def notSpaceAt_def)

text \<open>
  C7. \<open>clearFieldError\<close> on a field with no error (not marked invalid, not described, no
  border colour set, no element with its error id in the document) changes nothing. On
  any field whose error id is carried by at most one element of the document, the field
  has no error after \<open>clearFieldError\<close>, so clearing again changes nothing. On such a
  field that is in the document, \<open>showFieldError\<close> twice in a row returns both times;
  the second call creates no element, and afterwards exactly one element of the document
  has the error id of the field, the field is described by it and it holds the second
  message.
\<close>

theorem clearFieldError_idempotent_showFieldError_once:
  "(no_error d field \<longrightarrow> clearFieldError d field = d)
   \<and> (field < length d \<and> count_id d (el_id (d ! field) @ ''-error'') \<le> 1 \<longrightarrow>
        no_error (clearFieldError d field) field
        \<and> clearFieldError (clearFieldError d field) field = clearFieldError d field)
   \<and> (field < length d \<and> attached (d ! field)
        \<and> count_id d (el_id (d ! field) @ ''-error'') \<le> 1 \<longrightarrow>
        (\<exists>d1 d2. showFieldError d field m1 = Inr d1 \<and> showFieldError d1 field m2 = Inr d2
            \<and> length d2 = length d1
            \<and> count_id d2 (el_id (d ! field) @ ''-error'') = 1
            \<and> shows_error d2 field m2))"
proof (intro conjI impI)
  assume "no_error d field"
  then show "clearFieldError d field = d" by (rule clearFieldError_no_error)
next
  assume h: "field < length d \<and> count_id d (el_id (d ! field) @ ''-error'') \<le> 1"
  then have f: "field < length d" and c: "count_id d (el_id (d ! field) @ ''-error'') \<le> 1"
    by simp_all
  show "no_error (clearFieldError d field) field"
    using f clearFieldError_field[OF f] clearFieldError_removes[OF f c]
    by (simp add: no_error_def)
  show "clearFieldError (clearFieldError d field) field = clearFieldError d field"
    by (rule clearFieldError_idem[OF f c])
next
  let ?x = "el_id (d ! field) @ ''-error''"
  assume h: "field < length d \<and> attached (d ! field) \<and> count_id d ?x \<le> 1"
  then have f: "field < length d" and a: "attached (d ! field)" and c: "count_id d ?x \<le> 1"
    by simp_all
  from showFieldError_returns[OF f, of m1] a obtain d1 where
    s1: "showFieldError d field m1 = Inr d1" by blast
  have fr: "frame d d1 field" by (rule showFieldError_frame[OF f s1])
  then have f1: "field < length d1" and id1: "el_id (d1 ! field) = el_id (d ! field)"
    using f by (simp_all add: frame_def)
  have c1: "count_id d1 ?x = 1"
  proof (cases "getElementById d ?x = None")
    case True
    then show ?thesis using showFieldError_count(1)[OF f s1] by simp
  next
    case False
    then have "count_id d ?x \<noteq> 0" by (simp add: count_id_0_iff)
    then have "count_id d ?x = 1" using c by simp
    then show ?thesis using showFieldError_count(1)[OF f s1] False by simp
  qed
  then have g1: "getElementById d1 ?x \<noteq> None"
    using count_id_0_iff[of ?x d1] by simp
  then have g1': "getElementById d1 (el_id (d1 ! field) @ ''-error'') \<noteq> None" using id1 by simp
  from showFieldError_returns[OF f1, of m2] g1' obtain d2 where
    s2: "showFieldError d1 field m2 = Inr d2" by blast
  have "length d2 = length d1" using showFieldError_count(2)[OF f1 s2] g1' by simp
  moreover have "count_id d2 ?x = 1"
    using showFieldError_count(1)[OF f1 s2] g1' c1 id1 by simp
  moreover have "shows_error d2 field m2" by (rule showFieldError_shows[OF f1 s2])
  ultimately show "\<exists>d1 d2. showFieldError d field m1 = Inr d1 \<and> showFieldError d1 field m2 = Inr d2
            \<and> length d2 = length d1 \<and> count_id d2 ?x = 1 \<and> shows_error d2 field m2"
    using s1 s2 by blast
qed

theorem clearFieldError_idempotent_witness:
  "no_error [text_input ''name'' ''''] 0
   \<and> clearFieldError [text_input ''name'' ''''] 0 = [text_input ''name'' '''']
   \<and> count_id [text_input ''name'' ''''] ''name-error'' \<le> 1
   \<and> (\<exists>d1 d2. showFieldError [text_input ''name'' ''''] 0 ''first'' = Inr d1
          \<and> showFieldError d1 0 ''second'' = Inr d2
          \<and> length d2 = length d1
          \<and> count_id d2 ''name-error'' = 1
          \<and> shows_error d2 0 ''second'')"
  using clearFieldError_idempotent_showFieldError_once
          [of "[text_input ''name'' '''']" 0 "''first''" "''second''"]
  by (simp add: no_error_def count_id_def getElementById_def text_input_def)

subsection \<open>Form validation: fields and their error elements\<close>

lemma frame_count_id:
  assumes fr: "frame d d' k" and x: "x \<noteq> el_id (d ! k) @ ''-error''"
  shows "count_id d' x = count_id d x"
proof -
  have le: "length d \<le> length d'" using fr by (simp add: frame_def)
  have "{n. n < length d' \<and> attached (d' ! n) \<and> el_id (d' ! n) = x}
      = {n. n < length d \<and> attached (d ! n) \<and> el_id (d ! n) = x}"
  proof (rule set_eqI)
    fix n
    show "(n \<in> {n. n < length d' \<and> attached (d' ! n) \<and> el_id (d' ! n) = x})
        = (n \<in> {n. n < length d \<and> attached (d ! n) \<and> el_id (d ! n) = x})"
    proof (cases "n < length d")
      case True
      have id: "el_id (d' ! n) = el_id (d ! n)" using fr True by (simp add: frame_def)
      have "el_id (d ! n) = x \<Longrightarrow> attached (d' ! n) = attached (d ! n)"
        using fr True x by (simp add: frame_def)
      then show ?thesis using True le id by auto
    next
      case False
      have "n < length d' \<Longrightarrow> el_id (d' ! n) \<noteq> x" using fr False x by (simp add: frame_def)
      then show ?thesis using False by auto
    qed
  qed
  then show ?thesis by (simp add: count_id_card)
qed

lemma own_annotation_frame:
  assumes fr: "frame d d' k" and o: "own_annotation d f"
    and k: "k \<noteq> f" "el_id (d ! k) \<noteq> el_id (d ! f)"
  shows "own_annotation d' f"
proof -
  from o have f: "f < length d" by (simp add: own_annotation_def)
  have x: "el_id (d ! f) @ ''-error'' \<noteq> el_id (d ! k) @ ''-error''" using k by simp
  have id: "el_id (d' ! f) = el_id (d ! f)" using fr f by (simp add: frame_def)
  have a: "aria_invalid (d' ! f) = aria_invalid (d ! f)" using fr f k(1) by (simp add: frame_def)
  have "f < length d'" using fr f by (simp add: frame_def)
  then show ?thesis
    using o id a frame_count_id[OF fr x] frame_getElementById[OF fr x]
    by (simp add: own_annotation_def)
qed

lemma own_annotation_clear:
  assumes f: "f < length d" and c: "count_id d (el_id (d ! f) @ ''-error'') \<le> 1"
  shows "own_annotation (clearFieldError d f) f"
proof -
  have g: "getElementById (clearFieldError d f) (el_id (d ! f) @ ''-error'') = None"
    by (rule clearFieldError_removes[OF f c])
  then have "count_id (clearFieldError d f) (el_id (d ! f) @ ''-error'') = 0"
    by (simp add: count_id_0_iff)
  then show ?thesis using f g clearFieldError_field[OF f] by (simp add: own_annotation_def)
qed

lemma own_annotation_show:
  assumes f: "f < length d" and c: "count_id d (el_id (d ! f) @ ''-error'') \<le> 1"
    and s: "showFieldError d f m = Inr d'"
  shows "own_annotation d' f"
proof -
  have fr: "frame d d' f" by (rule showFieldError_frame[OF f s])
  then have f': "f < length d'" and id: "el_id (d' ! f) = el_id (d ! f)"
    using f by (simp_all add: frame_def)
  have sh: "shows_error d' f m" by (rule showFieldError_shows[OF f s])
  then have a: "aria_invalid (d' ! f) = Some ''true''"
    and g: "getElementById d' (el_id (d ! f) @ ''-error'') \<noteq> None"
    using id by (auto simp: shows_error_def split: option.splits)
  have "count_id d' (el_id (d ! f) @ ''-error'') \<le> 1"
    using showFieldError_count(1)[OF f s] c by (simp split: if_splits)
  then show ?thesis using f' id a g by (simp add: own_annotation_def)
qed

lemma own_annotation_validate:
  assumes f: "f < length d" and c: "count_id d (el_id (d ! f) @ ''-error'') \<le> 1"
    and v: "validateField d f = Inr (ok, d')"
  shows "own_annotation d' f"
proof (cases "fst (field_verdict (d ! f))")
  case True
  then have "d' = clearFieldError d f" using v validateField_valid[OF f True] by simp
  then show ?thesis using own_annotation_clear[OF f c] by simp
next
  case False
  let ?d1 = "clearFieldError d f"
  have f1: "f < length ?d1" using f by simp
  have id1: "el_id (?d1 ! f) = el_id (d ! f)" by (rule clearFieldError_field(4)[OF f])
  from v False f have s: "showFieldError ?d1 f (snd (field_verdict (d ! f))) = Inr d'"
    by (auto simp: validateField_def split_def Let_def split: sum.splits)
  have "own_annotation ?d1 f" by (rule own_annotation_clear[OF f c])
  then have c1: "count_id ?d1 (el_id (?d1 ! f) @ ''-error'') \<le> 1"
    by (simp add: own_annotation_def)
  show ?thesis by (rule own_annotation_show[OF f1 c1 s])
qed

lemma shared_id_after_clear:
  assumes a: "a < length d" and b: "b < length d" and ne: "a \<noteq> b"
    and id: "el_id (d ! a) = el_id (d ! b)"
    and c: "count_id d (el_id (d ! a) @ ''-error'') \<le> 1"
    and inv: "aria_invalid (d ! b) = Some ''true''"
  shows "getElementById (clearFieldError d a) (el_id (d ! a) @ ''-error'') = None"
    and "aria_invalid (clearFieldError d a ! b) = Some ''true''"
    and "\<not> own_annotation (clearFieldError d a) b"
proof -
  have fr: "frame d (clearFieldError d a) a" by (rule clearFieldError_frame[OF a])
  show g: "getElementById (clearFieldError d a) (el_id (d ! a) @ ''-error'') = None"
    by (rule clearFieldError_removes[OF a c])
  show i: "aria_invalid (clearFieldError d a ! b) = Some ''true''"
    using fr b ne inv by (simp add: frame_def)
  have "el_id (clearFieldError d a ! b) = el_id (d ! b)" using fr b by (simp add: frame_def)
  then show "\<not> own_annotation (clearFieldError d a) b"
    using g i id by (simp add: own_annotation_def)
qed

lemma validateField_frame:
  assumes f: "f < length d" and v: "validateField d f = Inr (ok, d')"
  shows "frame d d' f"
proof (cases "fst (field_verdict (d ! f))")
  case True
  then have "d' = clearFieldError d f" using v validateField_valid[OF f True] by simp
  then show ?thesis using clearFieldError_frame[OF f] by simp
next
  case False
  let ?d1 = "clearFieldError d f"
  have f1: "f < length ?d1" using f by simp
  from v False f have s: "showFieldError ?d1 f (snd (field_verdict (d ! f))) = Inr d'"
    by (auto simp: validateField_def split_def Let_def split: sum.splits)
  show ?thesis
    by (rule frame_trans[OF clearFieldError_frame[OF f] showFieldError_frame[OF f1 s]])
qed

lemma showFieldError_created_lookup:
  assumes f: "f < length d" and g: "getElementById d (el_id (d ! f) @ ''-error'') = None"
    and s: "showFieldError d f m = Inr d'"
  shows "getElementById d' (el_id (d ! f) @ ''-error'') = Some (length d)"
proof -
  have a: "attached (d ! f)" using showFieldError_detached[OF f g, of m] s by auto
  have d': "d' = d[f := shown (d ! f)]
                  @ [(new_errorElement (el_id (d ! f) @ ''-error''))
                       \<lparr>attached := True, textContent := m\<rparr>]"
    using showFieldError_created[OF f g a, of m] s by simp
  have "getElementById (d[f := shown (d ! f)]) (el_id (d ! f) @ ''-error'') = None"
    using f g by (simp add: getElementById_update_same shown_def)
  then show ?thesis
    unfolding d' using getElementById_append_new[of "d[f := shown (d ! f)]"]
    by (simp add: new_errorElement_def)
qed

text \<open>
  C10, as amended. The error element of a field is found by the string
  \<open>field.id + '-error'\<close> alone. For two different fields of the document with equal ids
  (both may be empty), where no element has the error id yet: \<open>showFieldError\<close> on the
  first creates the error element; \<open>showFieldError\<close> on the second creates nothing and
  puts its message into that same element, so that one element serves both fields and
  the first now shows the message of the second; \<open>clearFieldError\<close> on either field
  takes the shared element out of the document and leaves the other field marked
  invalid with no error element, so the annotation of that field is no longer its own.
  For a field and any field with a different id, or the field itself, every operation
  keeps the annotation of the field its own, whatever the ids are: the empty id of a
  field without an id attribute is an id like any other.
\<close>

theorem equal_ids_share_one_error_element:
  "(i < length d \<and> j < length d \<and> i \<noteq> j \<and> el_id (d ! i) = el_id (d ! j) \<and> attached (d ! i)
      \<and> getElementById d (el_id (d ! i) @ ''-error'') = None \<longrightarrow>
      (\<exists>d1 d2. showFieldError d i m1 = Inr d1
          \<and> length d1 = length d + 1
          \<and> getElementById d1 (el_id (d ! i) @ ''-error'') = Some (length d)
          \<and> showFieldError d1 j m2 = Inr d2
          \<and> length d2 = length d1
          \<and> getElementById d2 (el_id (d ! i) @ ''-error'') = Some (length d)
          \<and> textContent (d2 ! length d) = m2
          \<and> count_id d2 (el_id (d ! i) @ ''-error'') = 1
          \<and> shows_error d2 i m2 \<and> shows_error d2 j m2
          \<and> getElementById (clearFieldError d2 i) (el_id (d ! i) @ ''-error'') = None
          \<and> getElementById (clearFieldError d2 j) (el_id (d ! i) @ ''-error'') = None
          \<and> aria_invalid (clearFieldError d2 i ! j) = Some ''true''
          \<and> aria_invalid (clearFieldError d2 j ! i) = Some ''true''
          \<and> \<not> own_annotation (clearFieldError d2 i) j
          \<and> \<not> own_annotation (clearFieldError d2 j) i))
   \<and> (own_annotation d f \<and> k < length d \<and> (k = f \<or> el_id (d ! k) \<noteq> el_id (d ! f)) \<longrightarrow>
        own_annotation (clearFieldError d k) f
        \<and> (\<forall>m d'. showFieldError d k m = Inr d' \<longrightarrow> own_annotation d' f)
        \<and> (\<forall>ok d'. validateField d k = Inr (ok, d') \<longrightarrow> own_annotation d' f))"
proof (intro conjI impI)
  let ?x = "el_id (d ! i) @ ''-error''"
  assume h: "i < length d \<and> j < length d \<and> i \<noteq> j \<and> el_id (d ! i) = el_id (d ! j)
      \<and> attached (d ! i) \<and> getElementById d ?x = None"
  then have i: "i < length d" and j: "j < length d" and ne: "i \<noteq> j"
    and id: "el_id (d ! i) = el_id (d ! j)" and a: "attached (d ! i)"
    and g: "getElementById d ?x = None" by blast+
  from showFieldError_returns[OF i, of m1] a obtain d1 where
    s1: "showFieldError d i m1 = Inr d1" by blast
  have fr1: "frame d d1 i" by (rule showFieldError_frame[OF i s1])
  have l1: "length d1 = length d + 1" using showFieldError_count(2)[OF i s1] g by simp
  have c1: "count_id d1 ?x = 1" using showFieldError_count(1)[OF i s1] g by simp
  have sh1: "shows_error d1 i m1" by (rule showFieldError_shows[OF i s1])
  have i1: "i < length d1" and j1: "j < length d1" using l1 i j by simp_all
  have idi1: "el_id (d1 ! i) = el_id (d ! i)" and idj1: "el_id (d1 ! j) = el_id (d ! i)"
    using fr1 i j id by (simp_all add: frame_def)
  have g1: "getElementById d1 ?x = Some (length d)"
    by (rule showFieldError_created_lookup[OF i g s1])
  then have g1j: "getElementById d1 (el_id (d1 ! j) @ ''-error'') = Some (length d)"
    using idj1 by simp
  from showFieldError_returns[OF j1, of m2] g1j obtain d2 where
    s2: "showFieldError d1 j m2 = Inr d2" by auto
  have fr2: "frame d1 d2 j" by (rule showFieldError_frame[OF j1 s2])
  have l2: "length d2 = length d1" using showFieldError_count(2)[OF j1 s2] g1j by simp
  have c2: "count_id d2 ?x = 1" using showFieldError_count(1)[OF j1 s2] g1j c1 idj1 by simp
  have sh2: "shows_error d2 j m2" by (rule showFieldError_shows[OF j1 s2])
  have d2: "d2 = d1[length d := (d1 ! length d)\<lparr>textContent := m2\<rparr>, j := shown (d1 ! j)]"
    using showFieldError_found[OF j1 g1j, of m2] s2 by simp
  have u1: "getElementById (d1[length d := (d1 ! length d)\<lparr>textContent := m2\<rparr>]) ?x
              = getElementById d1 ?x"
    by (rule getElementById_update_same) (simp_all add: l1)
  have u2: "getElementById
              (d1[length d := (d1 ! length d)\<lparr>textContent := m2\<rparr>, j := shown (d1 ! j)]) ?x
              = getElementById (d1[length d := (d1 ! length d)\<lparr>textContent := m2\<rparr>]) ?x"
    by (rule getElementById_update_same) (use j l1 in \<open>simp_all add: shown_def\<close>)
  have g2: "getElementById d2 ?x = Some (length d)"
    unfolding d2 u2 u1 by (rule g1)
  have t2: "textContent (d2 ! length d) = m2" unfolding d2 using j l1 by simp
  have idi2: "el_id (d2 ! i) = el_id (d ! i)" and idj2: "el_id (d2 ! j) = el_id (d ! i)"
    using fr2 i1 j1 idi1 idj1 by (simp_all add: frame_def)
  have ai2: "aria_invalid (d2 ! i) = Some ''true''"
    "aria_describedby (d2 ! i) = Some ?x"
    using fr2 i1 ne sh1 idi1 by (simp_all add: frame_def shows_error_def)
  have aj2: "aria_invalid (d2 ! j) = Some ''true''" using sh2 by (simp add: shows_error_def)
  have shi: "shows_error d2 i m2"
    using i1 l2 ai2 idi2 g2 t2 by (simp add: shows_error_def)
  have i2: "i < length d2" and j2: "j < length d2" using i1 j1 l2 by simp_all
  have ci: "count_id d2 (el_id (d2 ! i) @ ''-error'') \<le> 1" using c2 idi2 by simp
  have cj: "count_id d2 (el_id (d2 ! j) @ ''-error'') \<le> 1" using c2 idj2 by simp
  have eq2: "el_id (d2 ! i) = el_id (d2 ! j)" using idi2 idj2 by simp
  note ri = shared_id_after_clear[OF i2 j2 ne eq2 ci aj2]
  note rj = shared_id_after_clear[OF j2 i2 ne[symmetric] eq2[symmetric] cj ai2(1)]
  show "\<exists>d1 d2. showFieldError d i m1 = Inr d1
          \<and> length d1 = length d + 1
          \<and> getElementById d1 ?x = Some (length d)
          \<and> showFieldError d1 j m2 = Inr d2
          \<and> length d2 = length d1
          \<and> getElementById d2 ?x = Some (length d)
          \<and> textContent (d2 ! length d) = m2
          \<and> count_id d2 ?x = 1
          \<and> shows_error d2 i m2 \<and> shows_error d2 j m2
          \<and> getElementById (clearFieldError d2 i) ?x = None
          \<and> getElementById (clearFieldError d2 j) ?x = None
          \<and> aria_invalid (clearFieldError d2 i ! j) = Some ''true''
          \<and> aria_invalid (clearFieldError d2 j ! i) = Some ''true''
          \<and> \<not> own_annotation (clearFieldError d2 i) j
          \<and> \<not> own_annotation (clearFieldError d2 j) i"
    using s1 l1 g1 s2 l2 g2 t2 c2 shi sh2 ri rj idi2 idj2 by auto
next
  assume h: "own_annotation d f \<and> k < length d \<and> (k = f \<or> el_id (d ! k) \<noteq> el_id (d ! f))"
  then have o: "own_annotation d f" and k: "k < length d" by simp_all
  show "own_annotation (clearFieldError d k) f"
  proof (cases "k = f")
    case True
    then show ?thesis using own_annotation_clear[OF k] o by (simp add: own_annotation_def)
  next
    case False
    then show ?thesis using own_annotation_frame[OF clearFieldError_frame[OF k] o] h by auto
  qed
next
  assume h: "own_annotation d f \<and> k < length d \<and> (k = f \<or> el_id (d ! k) \<noteq> el_id (d ! f))"
  then have o: "own_annotation d f" and k: "k < length d" by simp_all
  show "\<forall>m d'. showFieldError d k m = Inr d' \<longrightarrow> own_annotation d' f"
  proof (intro allI impI)
    fix m d' assume s: "showFieldError d k m = Inr d'"
    show "own_annotation d' f"
    proof (cases "k = f")
      case True
      then show ?thesis using own_annotation_show[OF k _ s] o by (simp add: own_annotation_def)
    next
      case False
      then show ?thesis using own_annotation_frame[OF showFieldError_frame[OF k s] o] h by auto
    qed
  qed
next
  assume h: "own_annotation d f \<and> k < length d \<and> (k = f \<or> el_id (d ! k) \<noteq> el_id (d ! f))"
  then have o: "own_annotation d f" and k: "k < length d" by simp_all
  show "\<forall>ok d'. validateField d k = Inr (ok, d') \<longrightarrow> own_annotation d' f"
  proof (intro allI impI)
    fix ok d' assume v: "validateField d k = Inr (ok, d')"
    show "own_annotation d' f"
    proof (cases "k = f")
      case True
      then show ?thesis using own_annotation_validate[OF k _ v] o by (simp add: own_annotation_def)
    next
      case False
      then show ?thesis using own_annotation_frame[OF validateField_frame[OF k v] o] h by auto
    qed
  qed
qed

theorem equal_ids_witness:
  "(0::nat) < length [text_input '''' '''', text_input '''' ''x'']
   \<and> el_id ([text_input '''' '''', text_input '''' ''x''] ! 0)
       = el_id ([text_input '''' '''', text_input '''' ''x''] ! 1)
   \<and> getElementById [text_input '''' '''', text_input '''' ''x''] ''-error'' = None
   \<and> own_annotation [text_input '''' '''', text_input '''' ''x''] 0
   \<and> (\<exists>d1 d2. showFieldError [text_input '''' '''', text_input '''' ''x''] 0 ''first'' = Inr d1
          \<and> showFieldError d1 1 ''second'' = Inr d2
          \<and> length d2 = length d1
          \<and> textContent (d2 ! 2) = ''second''
          \<and> shows_error d2 0 ''second''
          \<and> aria_invalid (clearFieldError d2 1 ! 0) = Some ''true''
          \<and> \<not> own_annotation (clearFieldError d2 1) 0)
   \<and> own_annotation (clearFieldError [text_input '''' '''', text_input '''' ''x''] 0) 0"
proof -
  let ?d = "[text_input '''' '''', text_input '''' ''x'']"
  have g: "getElementById ?d ''-error'' = None"
    by (simp add: getElementById_def text_input_def)
  have x: "el_id (?d ! 0) @ ''-error'' = ''-error''" by (simp add: text_input_def)
  have h: "0 < length ?d \<and> 1 < length ?d \<and> (0::nat) \<noteq> 1 \<and> el_id (?d ! 0) = el_id (?d ! 1)
      \<and> attached (?d ! 0) \<and> getElementById ?d (el_id (?d ! 0) @ ''-error'') = None"
    unfolding x using g by (simp add: text_input_def)
  have o: "own_annotation ?d 0"
    by (simp add: own_annotation_def count_id_def getElementById_def text_input_def)
  then have o': "own_annotation ?d 0 \<and> 0 < length ?d
      \<and> ((0::nat) = 0 \<or> el_id (?d ! 0) \<noteq> el_id (?d ! 0))" by simp
  note t = equal_ids_share_one_error_element
             [where i = 0 and j = 1 and d = ?d and ?m1.0 = "''first''" and ?m2.0 = "''second''"
                and f = 0 and k = 0]
  from t h obtain d1 d2 where
    r: "showFieldError ?d 0 ''first'' = Inr d1" "showFieldError d1 1 ''second'' = Inr d2"
       "length d2 = length d1" "textContent (d2 ! length ?d) = ''second''"
       "shows_error d2 0 ''second''" "aria_invalid (clearFieldError d2 1 ! 0) = Some ''true''"
       "\<not> own_annotation (clearFieldError d2 1) 0"
    by blast
  from t o' have c: "own_annotation (clearFieldError ?d 0) 0" by blast
  have l: "length ?d = 2" by simp
  have e: "\<exists>d1 d2. showFieldError ?d 0 ''first'' = Inr d1
          \<and> showFieldError d1 1 ''second'' = Inr d2
          \<and> length d2 = length d1
          \<and> textContent (d2 ! 2) = ''second''
          \<and> shows_error d2 0 ''second''
          \<and> aria_invalid (clearFieldError d2 1 ! 0) = Some ''true''
          \<and> \<not> own_annotation (clearFieldError d2 1) 0"
    using r unfolding l by blast
  have i: "el_id (?d ! 0) = el_id (?d ! 1)" using h by blast
  show ?thesis using g o e c i by simp
qed

text \<open>
  C10 as stated asks for non-empty ids. A field without an id, alone with its id, keeps
  its annotation its own: its error id is \<open>-error\<close>, and validating it twice and clearing
  it goes through the same states as for any other id.
\<close>

theorem lone_field_without_id_keeps_its_annotation:
  "el_id ([text_input '''' ''''] ! 0) = ''''
   \<and> own_annotation [text_input '''' ''''] 0
   \<and> validateField [text_input '''' ''''] 0
       = Inr (False,
              [shown (text_input '''' ''''),
               (new_errorElement ''-error'')
                 \<lparr>attached := True, textContent := ''This field is required.''\<rparr>])
   \<and> own_annotation
        [shown (text_input '''' ''''),
         (new_errorElement ''-error'')
           \<lparr>attached := True, textContent := ''This field is required.''\<rparr>] 0
   \<and> shows_error
        [shown (text_input '''' ''''),
         (new_errorElement ''-error'')
           \<lparr>attached := True, textContent := ''This field is required.''\<rparr>]
        0 ''This field is required.''
   \<and> validateField
        [shown (text_input '''' ''''),
         (new_errorElement ''-error'')
           \<lparr>attached := True, textContent := ''This field is required.''\<rparr>] 0
       = Inr (False,
              [shown (text_input '''' ''''),
               (new_errorElement ''-error'')\<lparr>textContent := ''This field is required.''\<rparr>,
               (new_errorElement ''-error'')
                 \<lparr>attached := True, textContent := ''This field is required.''\<rparr>])
   \<and> own_annotation
        [shown (text_input '''' ''''),
         (new_errorElement ''-error'')\<lparr>textContent := ''This field is required.''\<rparr>,
         (new_errorElement ''-error'')
           \<lparr>attached := True, textContent := ''This field is required.''\<rparr>] 0
   \<and> clearFieldError
        [shown (text_input '''' ''''),
         (new_errorElement ''-error'')\<lparr>textContent := ''This field is required.''\<rparr>,
         (new_errorElement ''-error'')
           \<lparr>attached := True, textContent := ''This field is required.''\<rparr>] 0
       = [text_input '''' '''',
          (new_errorElement ''-error'')\<lparr>textContent := ''This field is required.''\<rparr>,
          (new_errorElement ''-error'')\<lparr>textContent := ''This field is required.''\<rparr>]
   \<and> own_annotation
        [text_input '''' '''',
         (new_errorElement ''-error'')\<lparr>textContent := ''This field is required.''\<rparr>,
         (new_errorElement ''-error'')\<lparr>textContent := ''This field is required.''\<rparr>] 0"
  by (simp add: validation_defs own_annotation_def count_id_def shown_def)

end
